theory Spec2Isabelle
  imports Complex_Main "HOL-Library.Log_Nat"
begin

section \<open>Time, durations and the clock\<close>

text \<open>
  The program reads the clock with \<^verbatim>\<open>time.Now()\<close>. Every reading is an explicit argument
  of the function that takes it, in the order the source takes them. A \<open>Time\<close> is the
  instant in nanoseconds since the Unix epoch; Go's \<^verbatim>\<open>time.Time\<close> covers far more than the
  instants that occur here, so it is an unbounded integer. A \<open>Duration\<close> is Go's
  \<^verbatim>\<open>time.Duration\<close>: a signed 64-bit count of nanoseconds, whose arithmetic wraps around.
  Go's \<^verbatim>\<open>int\<close> is taken at 64 bits, as on the 64-bit targets the program is built for.
\<close>

type_synonym Time = int
type_synonym Duration = int

definition wrap64 :: "int \<Rightarrow> int" where
  "wrap64 x = (x + 2 ^ 63) mod 2 ^ 64 - 2 ^ 63"

definition maxDuration :: Duration where
  "maxDuration = 2 ^ 63 - 1"

definition minDuration :: Duration where
  "minDuration = - (2 ^ 63)"

definition Second :: Duration where
  "Second = 1000000000"

text \<open>\<^verbatim>\<open>time.Duration(n) * time.Second\<close>: an int64 product, which wraps.\<close>

definition Seconds_of :: "int \<Rightarrow> Duration" where
  "Seconds_of n = wrap64 (n * Second)"

text \<open>\<^verbatim>\<open>time.Time{}\<close>, the zero instant: 1 January of year 1, 00:00:00 UTC.\<close>

definition zeroTime :: Time where
  "zeroTime = - 62135596800 * 1000000000"

definition Add :: "Time \<Rightarrow> Duration \<Rightarrow> Time" where
  "Add t d = t + d"

definition After :: "Time \<Rightarrow> Time \<Rightarrow> bool" where
  "After t u = (u < t)"

text \<open>\<^verbatim>\<open>t.Unix()\<close>: whole seconds since the epoch, rounded down.\<close>

definition Unix :: "Time \<Rightarrow> int" where
  "Unix t = t div Second"

text \<open>\<^verbatim>\<open>t.Sub(u)\<close> saturates at the largest and smallest \<open>Duration\<close>.\<close>

definition Sub :: "Time \<Rightarrow> Time \<Rightarrow> Duration" where
  "Sub t u =
     (let d = t - u in
      if maxDuration < d then maxDuration
      else if d < minDuration then minDuration
      else d)"

text \<open>
  \<^verbatim>\<open>time.Until(t)\<close> is \<^verbatim>\<open>t.Sub(time.Now())\<close>: it reads the clock itself, so the reading is its
  second argument.
\<close>

definition Until :: "Time \<Rightarrow> Time \<Rightarrow> Duration" where
  "Until t now = Sub t now"

subsection \<open>Seconds as a float64\<close>

text \<open>
  \<open>quo\<close> and \<open>rem\<close> are Go's \<^verbatim>\<open>/\<close> and \<^verbatim>\<open>%\<close> on integers: the quotient rounded towards zero,
  and the remainder, which has the sign of the dividend.
\<close>

definition quo :: "int \<Rightarrow> int \<Rightarrow> int" where
  "quo a b = (if (a < 0) = (b < 0) then \<bar>a\<bar> div \<bar>b\<bar> else - (\<bar>a\<bar> div \<bar>b\<bar>))"

definition rem :: "int \<Rightarrow> int \<Rightarrow> int" where
  "rem a b = a - b * quo a b"

text \<open>
  A float64 value is the rational number it stands for. Every float64 operation is the
  exact operation followed by \<open>float64\<close>, the rounding to the nearest number with a
  significand of 53 bits, a tie going to the even significand (IEEE 754 binary64, round
  to nearest even). The limits of the exponent are left out: the magnitudes that occur
  here lie between \<open>10^-9\<close> and \<open>2^34\<close>. For a positive \<open>x\<close>, \<open>binary_exponent x\<close> is the \<open>e\<close>
  with \<open>2^e \<le> x < 2^(e+1)\<close>, and \<open>round_even\<close> rounds to the nearest integer, a tie going to
  the even one.
\<close>

definition round_even :: "rat \<Rightarrow> int" where
  "round_even x =
     (let f = \<lfloor>x\<rfloor>; r = x - of_int f in
      if r < 1 / 2 then f
      else if 1 / 2 < r then f + 1
      else if even f then f else f + 1)"

definition binary_exponent :: "rat \<Rightarrow> int" where
  "binary_exponent x =
     (let (a, b) = quotient_of x; k = bitlen a - bitlen b
      in if 2 powi k \<le> x then k else k - 1)"

definition float64 :: "rat \<Rightarrow> rat" where
  "float64 x =
     (if x = 0 then 0
      else let ulp = 2 powi (binary_exponent \<bar>x\<bar> - 52)
           in of_int (round_even (x / ulp)) * ulp)"

text \<open>
  \<^verbatim>\<open>d.Seconds()\<close>, as the Go library has it:
  \<^verbatim>\<open>sec := d / Second; nsec := d % Second; return float64(sec) + float64(nsec)/1e9\<close>.
\<close>

definition Seconds :: "Duration \<Rightarrow> rat" where
  "Seconds d =
     (let sec = quo d Second; nsec = rem d Second
      in float64 (float64 (of_int sec) + float64 (float64 (of_int nsec) / 1000000000)))"

text \<open>The conversion \<^verbatim>\<open>int(f)\<close> of a float64 drops the fraction (towards zero).\<close>

definition float64_to_int :: "rat \<Rightarrow> int" where
  "float64_to_int f = (if 0 \<le> f then \<lfloor>f\<rfloor> else \<lceil>f\<rceil>)"

text \<open>The numbers a float64 can hold, exponent limits left out.\<close>

definition representable :: "rat \<Rightarrow> bool" where
  "representable r = (\<exists>m e. \<bar>m\<bar> < 2 ^ 53 \<and> r = of_int m * 2 powi e)"

section \<open>Configuration and the rate limiter's state\<close>

text \<open>
  A method of \<^verbatim>\<open>Auth\<close> takes the fields of its receiver that it reads (the configuration,
  the login-attempt table, the cookie store, the directory client) as its first arguments
  and returns the ones it changes. Of \<^verbatim>\<open>types.AuthConfig\<close> the record has the fields that
  the functions below read. \<^verbatim>\<open>types.LoginAttempt\<close> is one entry of the login-attempt
  table; \<^verbatim>\<open>Auth.LoginAttempts\<close> maps an identifier to its entry. Every operation runs
  under \<^verbatim>\<open>LoginMutex\<close>, so each is one atomic step on the table.
\<close>

record AuthConfig =
  SessionExpiry :: int
  LoginTimeout :: int
  LoginMaxRetries :: int

record LoginAttempt =
  FailedAttempts :: int
  LastAttempt :: Time
  LockedUntil :: Time

type_synonym LoginAttempts = "string \<rightharpoonup> LoginAttempt"

definition newLoginAttempt :: LoginAttempt where
  "newLoginAttempt = \<lparr>FailedAttempts = 0, LastAttempt = zeroTime, LockedUntil = zeroTime\<rparr>"

text \<open>
  \<^verbatim>\<open>IsAccountLocked\<close> reads the clock twice: once for \<^verbatim>\<open>LockedUntil.After(time.Now())\<close>
  (\<open>now\<close>) and once inside \<^verbatim>\<open>time.Until\<close> (\<open>now'\<close>). The remaining seconds are
  \<^verbatim>\<open>int(time.Until(attempt.LockedUntil).Seconds())\<close>.
\<close>

definition IsAccountLocked ::
  "AuthConfig \<Rightarrow> LoginAttempts \<Rightarrow> string \<Rightarrow> Time \<Rightarrow> Time \<Rightarrow> bool \<times> int" where
  "IsAccountLocked cfg attempts identifier now now' =
     (if LoginMaxRetries cfg \<le> 0 \<or> LoginTimeout cfg \<le> 0 then (False, 0)
      else case attempts identifier of
        None \<Rightarrow> (False, 0)
      | Some attempt \<Rightarrow>
          if After (LockedUntil attempt) now
          then (True, float64_to_int (Seconds (Until (LockedUntil attempt) now')))
          else (False, 0))"

text \<open>
  \<^verbatim>\<open>RecordLoginAttempt\<close> reads the clock for \<^verbatim>\<open>LastAttempt\<close> (\<open>now\<close>) and, when it locks,
  again for \<^verbatim>\<open>LockedUntil\<close> (\<open>now'\<close>). The entry is fetched or created before the outcome
  is looked at; the entry is a pointer in the table, so every later assignment is an
  assignment to the table's entry. \<^verbatim>\<open>FailedAttempts++\<close> is an \<^verbatim>\<open>int\<close> increment and wraps.
\<close>

definition RecordLoginAttempt ::
  "AuthConfig \<Rightarrow> LoginAttempts \<Rightarrow> string \<Rightarrow> bool \<Rightarrow> Time \<Rightarrow> Time \<Rightarrow> LoginAttempts" where
  "RecordLoginAttempt cfg attempts identifier success now now' =
     (if LoginMaxRetries cfg \<le> 0 \<or> LoginTimeout cfg \<le> 0 then attempts
      else
        let attempt = (case attempts identifier of
                         None \<Rightarrow> newLoginAttempt
                       | Some a \<Rightarrow> a);
            attempt = attempt\<lparr>LastAttempt := now\<rparr>
        in
          if success
          then attempts(identifier \<mapsto> attempt\<lparr>FailedAttempts := 0, LockedUntil := zeroTime\<rparr>)
          else
            let attempt = attempt\<lparr>FailedAttempts := wrap64 (FailedAttempts attempt + 1)\<rparr>
            in
              if LoginMaxRetries cfg \<le> FailedAttempts attempt
              then attempts(identifier \<mapsto>
                     attempt\<lparr>LockedUntil := Add now' (Seconds_of (LoginTimeout cfg))\<rparr>)
              else attempts(identifier \<mapsto> attempt))"

text \<open>
  The run of consecutive failed attempts for one identifier that the lockout property
  speaks of: one failed \<^verbatim>\<open>RecordLoginAttempt\<close> call per pair of clock readings, in order.
  \<open>failed_count\<close> reads an identifier's counter, 0 when it has no entry.
\<close>

fun record_failures ::
  "AuthConfig \<Rightarrow> LoginAttempts \<Rightarrow> string \<Rightarrow> (Time \<times> Time) list \<Rightarrow> LoginAttempts" where
  "record_failures cfg attempts identifier [] = attempts"
| "record_failures cfg attempts identifier ((now, now') # ts) =
     record_failures cfg (RecordLoginAttempt cfg attempts identifier False now now') identifier ts"

definition failed_count :: "LoginAttempts \<Rightarrow> string \<Rightarrow> int" where
  "failed_count attempts identifier =
     (case attempts identifier of None \<Rightarrow> 0 | Some a \<Rightarrow> FailedAttempts a)"

section \<open>Users and identities\<close>

text \<open>
  \<^verbatim>\<open>types.User\<close>, \<^verbatim>\<open>types.UserSearch\<close> and \<^verbatim>\<open>types.UserContext\<close>, with the fields the source
  reads. Several structs of the program share field names; a field is written with its
  struct's name where that is needed to tell them apart.
\<close>

record User =
  Username :: string
  Password :: string

record UserSearch =
  Username :: string
  Type :: string

record UserContext =
  Username :: string
  Email :: string
  Provider :: string
  OAuthGroups :: string

section \<open>Sessions\<close>

text \<open>
  A Go \<^verbatim>\<open>error\<close> value carries its message. The session's \<^verbatim>\<open>Values\<close> is a map from keys to
  dynamically typed values; the keys used are strings and the values stored are strings,
  an \<^verbatim>\<open>int64\<close> and a \<^verbatim>\<open>bool\<close>.
\<close>

datatype error = Error string

datatype val = VString string | VInt64 int | VBool bool

type_synonym Values = "string \<rightharpoonup> val"

text \<open>
  The cookie store is the external \<^verbatim>\<open>sessions.CookieStore\<close>. What the program uses of it:
  \<^verbatim>\<open>Store.Get(c.Request, name)\<close> decodes the session cookie the request carries (\<open>None\<close>
  when it carries none) into the session's values, or fails; \<^verbatim>\<open>session.Save\<close> encodes the
  values into the cookie's text, or fails, and on success writes the cookie to the
  response with the store's options, whose \<^verbatim>\<open>MaxAge\<close> \<^verbatim>\<open>NewAuth\<close> sets to
  \<^verbatim>\<open>config.SessionExpiry\<close>. Both are parameters here.
\<close>

record CookieStore =
  Get :: "string option \<Rightarrow> error + Values"
  Save :: "Values \<Rightarrow> error + string"

text \<open>
  \<^verbatim>\<open>gin.Context\<close>, as far as the program touches it: the session cookie of the request, the
  \<^verbatim>\<open>X-Forwarded-Uri\<close> header (empty when absent), the client's address, and the cookies
  written to the response, in order. Writing a cookie never changes the request.
\<close>

record Cookie =
  Value :: string
  MaxAge :: int

record Context =
  Request :: "string option"
  ForwardedUri :: string
  ClientIP :: string
  Writer :: "Cookie list"

definition SetCookie :: "Context \<Rightarrow> string \<Rightarrow> int \<Rightarrow> Context" where
  "SetCookie c v maxAge = c\<lparr>Writer := Writer c @ [\<lparr>Value = v, MaxAge = maxAge\<rparr>]\<rparr>"

record SessionCookie =
  Username :: string
  Name :: string
  Email :: string
  Provider :: string
  TotpPending :: bool
  OAuthGroups :: string

text \<open>\<^verbatim>\<open>types.SessionCookie{}\<close>, the empty record.\<close>

definition emptySessionCookie :: SessionCookie where
  "emptySessionCookie =
     \<lparr>Username = [], Name = [], Email = [], Provider = [], TotpPending = False, OAuthGroups = []\<rparr>"

definition GetSession :: "CookieStore \<Rightarrow> Context \<Rightarrow> Context \<times> (error + Values)" where
  "GetSession store c =
     (case Get store (Request c) of
        Inr session \<Rightarrow> (c, Inr session)
      | Inl err \<Rightarrow>
          let c = SetCookie c [] (- 1) in
          (case Get store (Request c) of
             Inr session \<Rightarrow> (c, Inr session)
           | Inl err \<Rightarrow> (c, Inl err)))"

text \<open>
  Lines 252 to 268 of \<^verbatim>\<open>CreateSessionCookie\<close>: the expiry, and the seven assignments to
  \<^verbatim>\<open>session.Values\<close>.
\<close>

definition setSessionValues :: "AuthConfig \<Rightarrow> Values \<Rightarrow> SessionCookie \<Rightarrow> Time \<Rightarrow> Values" where
  "setSessionValues cfg session data now =
     (let sessionExpiry = (if TotpPending data then 3600 else SessionExpiry cfg)
      in session
          (''username'' \<mapsto> VString (Username data),
           ''name'' \<mapsto> VString (Name data),
           ''email'' \<mapsto> VString (Email data),
           ''provider'' \<mapsto> VString (Provider data),
           ''expiry'' \<mapsto> VInt64 (Unix (Add now (Seconds_of sessionExpiry))),
           ''totpPending'' \<mapsto> VBool (TotpPending data),
           ''oauthGroups'' \<mapsto> VString (OAuthGroups data)))"

definition CreateSessionCookie ::
  "AuthConfig \<Rightarrow> CookieStore \<Rightarrow> Context \<Rightarrow> SessionCookie \<Rightarrow> Time \<Rightarrow> Context \<times> error option" where
  "CreateSessionCookie cfg store c data now =
     (case GetSession store c of
        (c, Inl err) \<Rightarrow> (c, Some err)
      | (c, Inr session) \<Rightarrow>
          (case Save store (setSessionValues cfg session data now) of
             Inl err \<Rightarrow> (c, Some err)
           | Inr text \<Rightarrow> (SetCookie c text (SessionExpiry cfg), None)))"

definition DeleteSessionCookie ::
  "AuthConfig \<Rightarrow> CookieStore \<Rightarrow> Context \<Rightarrow> Context \<times> error option" where
  "DeleteSessionCookie cfg store c =
     (case GetSession store c of
        (c, Inl err) \<Rightarrow> (c, Some err)
      | (c, Inr session) \<Rightarrow>
          (case Save store Map.empty of
             Inl err \<Rightarrow> (c, Some err)
           | Inr text \<Rightarrow> (SetCookie c text (SessionExpiry cfg), None)))"

text \<open>The type assertions \<^verbatim>\<open>v.(string)\<close>, \<^verbatim>\<open>v.(int64)\<close> and \<^verbatim>\<open>v.(bool)\<close> on a looked-up value.\<close>

fun asString :: "val option \<Rightarrow> string \<times> bool" where
  "asString (Some (VString s)) = (s, True)"
| "asString _ = ([], False)"

fun asInt64 :: "val option \<Rightarrow> int \<times> bool" where
  "asInt64 (Some (VInt64 n)) = (n, True)"
| "asInt64 _ = (0, False)"

fun asBool :: "val option \<Rightarrow> bool \<times> bool" where
  "asBool (Some (VBool b)) = (b, True)"
| "asBool _ = (False, False)"

text \<open>
  \<^verbatim>\<open>GetSessionCookie\<close> reads the clock once, for the expiry check. The result of
  \<^verbatim>\<open>DeleteSessionCookie\<close> is dropped, as in the source; its writes to the response stay.
\<close>

definition GetSessionCookie ::
  "AuthConfig \<Rightarrow> CookieStore \<Rightarrow> Context \<Rightarrow> Time \<Rightarrow> Context \<times> SessionCookie \<times> error option" where
  "GetSessionCookie cfg store c now =
     (case GetSession store c of
        (c, Inl err) \<Rightarrow> (c, emptySessionCookie, Some err)
      | (c, Inr session) \<Rightarrow>
          let (username, usernameOk) = asString (session ''username'');
              (email, emailOk) = asString (session ''email'');
              (name, nameOk) = asString (session ''name'');
              (provider, providerOK) = asString (session ''provider'');
              (expiry, expiryOk) = asInt64 (session ''expiry'');
              (totpPending, totpPendingOk) = asBool (session ''totpPending'');
              (oauthGroups, oauthGroupsOk) = asString (session ''oauthGroups'')
          in
            if \<not> usernameOk \<or> \<not> providerOK \<or> \<not> expiryOk \<or> \<not> totpPendingOk \<or> \<not> emailOk \<or>
               \<not> nameOk \<or> \<not> oauthGroupsOk
            then (fst (DeleteSessionCookie cfg store c), emptySessionCookie, None)
            else if expiry < Unix now
            then (fst (DeleteSessionCookie cfg store c), emptySessionCookie, None)
            else (c,
                  \<lparr>Username = username, Name = name, Email = email, Provider = provider,
                   TotpPending = totpPending, OAuthGroups = oauthGroups\<rparr>,
                  None))"

text \<open>
  What the round trip of a session needs of the external store: it decodes the text it
  produced into the values it was given.
\<close>

definition decodes_what_it_encodes :: "CookieStore \<Rightarrow> bool" where
  "decodes_what_it_encodes store =
     (\<forall>values text. Save store values = Inr text \<longrightarrow> Get store (Some text) = Inr values)"

text \<open>
  A small store for the concrete evaluations: it encodes one given session and the empty
  session, decodes these two texts and a request without cookie, and rejects everything
  else.
\<close>

definition example_store :: "Values \<Rightarrow> CookieStore" where
  "example_store session =
     \<lparr>Get = (\<lambda>cookie.
         if cookie = Some ''session'' then Inr session
         else if cookie = Some ''cleared'' \<or> cookie = None then Inr Map.empty
         else Inl (Error ''securecookie: the value is not valid'')),
      Save = (\<lambda>values.
         if values = session then Inr ''session''
         else if values = Map.empty then Inr ''cleared''
         else Inl (Error ''securecookie: the value is too long''))\<rparr>"

section \<open>Credential verification\<close>

text \<open>
  The local user list is \<^verbatim>\<open>Config.Users\<close>. \<^verbatim>\<open>bcrypt.CompareHashAndPassword\<close> is external:
  \<open>compare\<close> says whether it returns \<^verbatim>\<open>nil\<close> for a hash and a password.
\<close>

fun GetLocalUser :: "User list \<Rightarrow> string \<Rightarrow> User" where
  "GetLocalUser [] username = \<lparr>User.Username = [], Password = []\<rparr>"
| "GetLocalUser (user # users) username =
     (if User.Username user = username then user else GetLocalUser users username)"

definition CheckPassword :: "(string \<Rightarrow> string \<Rightarrow> bool) \<Rightarrow> User \<Rightarrow> string \<Rightarrow> bool" where
  "CheckPassword compare user password = compare (Password user) password"

text \<open>
  The directory client \<^verbatim>\<open>ldap.LDAP\<close> is external. It holds the service account's
  credentials (\<^verbatim>\<open>Config.BindDN\<close>, \<^verbatim>\<open>Config.BindPassword\<close>) and a connection whose state a
  bind changes; \<open>Bind\<close> is the outcome of a bind on a connection, with the connection it
  leaves. \<^verbatim>\<open>auth.LDAP\<close> is a pointer that may be \<^verbatim>\<open>nil\<close>.
\<close>

record 'conn LDAP =
  BindDN :: string
  BindPassword :: string
  Conn :: 'conn
  Bind :: "'conn \<Rightarrow> string \<Rightarrow> string \<Rightarrow> error option \<times> 'conn"

definition LDAP_Bind :: "'conn LDAP \<Rightarrow> string \<Rightarrow> string \<Rightarrow> error option \<times> 'conn LDAP" where
  "LDAP_Bind ldap dn password =
     (case Bind ldap (Conn ldap) dn password of (err, conn) \<Rightarrow> (err, ldap\<lparr>Conn := conn\<rparr>))"

definition VerifyUser ::
  "(string \<Rightarrow> string \<Rightarrow> bool) \<Rightarrow> User list \<Rightarrow> 'conn LDAP option \<Rightarrow> UserSearch \<Rightarrow> string \<Rightarrow>
     bool \<times> 'conn LDAP option" where
  "VerifyUser compare users ldap search password =
     (if Type search = ''local''
      then (CheckPassword compare (GetLocalUser users (UserSearch.Username search)) password, ldap)
      else if Type search = ''ldap''
      then (case ldap of
              Some l \<Rightarrow>
                (case LDAP_Bind l (UserSearch.Username search) password of
                   (Some err, l) \<Rightarrow> (False, Some l)
                 | (None, l) \<Rightarrow>
                     (case LDAP_Bind l (BindDN l) (BindPassword l) of
                        (Some err, l) \<Rightarrow> (False, Some l)
                      | (None, l) \<Rightarrow> (True, Some l)))
            | None \<Rightarrow> (False, None))
      else (False, ldap))"

section \<open>Access policy\<close>

text \<open>\<^verbatim>\<open>types.Labels\<close>, with the fields the source reads.\<close>

record OAuthLabels =
  Whitelist :: string
  Groups :: string

record IPLabels =
  Allow :: "string list"
  Block :: "string list"

record Labels =
  Users :: string
  Allowed :: string
  OAuth :: OAuthLabels
  IP :: IPLabels

text \<open>\<^verbatim>\<open>strings.Split(s, ",")\<close>, for a separator of one character: the empty string gives one empty piece.\<close>

fun Split :: "string \<Rightarrow> char \<Rightarrow> string list" where
  "Split [] sep = [[]]"
| "Split (c # s) sep =
     (if c = sep then [] # Split s sep
      else case Split s sep of
             piece # pieces \<Rightarrow> (c # piece) # pieces
           | [] \<Rightarrow> [[c]])"

text \<open>
  Modelled from the spec: \<^verbatim>\<open>utils.CheckWhitelist\<close> is not among the sources. The spec gives
  a whitelist as a comma-separated list of exact-match (case-sensitive) entries, an empty
  whitelist allowing everything. \<^verbatim>\<open>OAuthGroup\<close> below takes the check as a parameter; this
  one serves the concrete evaluations.
\<close>

definition CheckWhitelist :: "string \<Rightarrow> string \<Rightarrow> bool" where
  "CheckWhitelist whitelist str = (whitelist = [] \<or> str \<in> set (Split whitelist CHR '',''))"

text \<open>
  The loop of \<^verbatim>\<open>OAuthGroup\<close> over the identity's groups; \<open>check\<close> stands for
  \<^verbatim>\<open>utils.CheckWhitelist\<close>.
\<close>

fun OAuthGroup_loop :: "(string \<Rightarrow> string \<Rightarrow> bool) \<Rightarrow> string \<Rightarrow> string list \<Rightarrow> bool" where
  "OAuthGroup_loop check required [] = False"
| "OAuthGroup_loop check required (grp # oauthGroups) =
     (if check required grp then True else OAuthGroup_loop check required oauthGroups)"

definition OAuthGroup :: "(string \<Rightarrow> string \<Rightarrow> bool) \<Rightarrow> UserContext \<Rightarrow> Labels \<Rightarrow> bool" where
  "OAuthGroup check context labels =
     (if Groups (OAuth labels) = [] then True
      else if UserContext.Provider context \<noteq> ''generic'' then True
      else OAuthGroup_loop check (Groups (OAuth labels))
             (Split (UserContext.OAuthGroups context) CHR '',''))"

text \<open>
  \<^verbatim>\<open>regexp.Compile\<close> and \<^verbatim>\<open>MatchString\<close> are external: \<open>compile\<close> gives the compiled
  expression or the error, \<open>matches\<close> says whether a compiled expression matches a string.
  The first component of the result is "authentication is required".
\<close>

definition AuthEnabled ::
  "(string \<Rightarrow> error + 'regex) \<Rightarrow> ('regex \<Rightarrow> string \<Rightarrow> bool) \<Rightarrow> Context \<Rightarrow> Labels \<Rightarrow>
     bool \<times> error option" where
  "AuthEnabled compile matches c labels =
     (let uri = ForwardedUri c in
      if Allowed labels = [] then (True, None)
      else case compile (Allowed labels) of
             Inl err \<Rightarrow> (True, Some err)
           | Inr regex \<Rightarrow> if matches regex uri then (False, None) else (True, None))"

text \<open>
  \<^verbatim>\<open>utils.FilterIP(entry, ip)\<close> is not among the sources; it is the parameter \<open>filterIP\<close>,
  giving the error for an entry that does not parse and otherwise whether the entry (an
  address or a CIDR block) matches the address. The two loops of \<^verbatim>\<open>CheckIP\<close> give \<open>Some\<close>
  of the value they return from inside the loop, or \<open>None\<close> when they run to the end.
\<close>

fun CheckIP_block :: "(string \<Rightarrow> string \<Rightarrow> error + bool) \<Rightarrow> string \<Rightarrow> string list \<Rightarrow> bool option" where
  "CheckIP_block filterIP ip [] = None"
| "CheckIP_block filterIP ip (blocked # rest) =
     (case filterIP blocked ip of
        Inl err \<Rightarrow> CheckIP_block filterIP ip rest
      | Inr res \<Rightarrow> if res then Some False else CheckIP_block filterIP ip rest)"

fun CheckIP_allow :: "(string \<Rightarrow> string \<Rightarrow> error + bool) \<Rightarrow> string \<Rightarrow> string list \<Rightarrow> bool option" where
  "CheckIP_allow filterIP ip [] = None"
| "CheckIP_allow filterIP ip (allowed # rest) =
     (case filterIP allowed ip of
        Inl err \<Rightarrow> CheckIP_allow filterIP ip rest
      | Inr res \<Rightarrow> if res then Some True else CheckIP_allow filterIP ip rest)"

definition CheckIP :: "(string \<Rightarrow> string \<Rightarrow> error + bool) \<Rightarrow> Context \<Rightarrow> Labels \<Rightarrow> bool" where
  "CheckIP filterIP c labels =
     (let ip = ClientIP c in
      case CheckIP_block filterIP ip (Block (IP labels)) of
        Some denied \<Rightarrow> denied
      | None \<Rightarrow>
          (case CheckIP_allow filterIP ip (Allow (IP labels)) of
             Some granted \<Rightarrow> granted
           | None \<Rightarrow> if 0 < length (Allow (IP labels)) then False else True))"

section \<open>Values for the concrete evaluations\<close>

text \<open>A configuration, a session and a request.\<close>

definition example_config :: AuthConfig where
  "example_config = \<lparr>SessionExpiry = 86400, LoginTimeout = 60, LoginMaxRetries = 3\<rparr>"

definition alice :: SessionCookie where
  "alice = \<lparr>Username = ''alice'', Name = ''Alice'', Email = ''alice@example.com'',
     Provider = ''username'', TotpPending = False, OAuthGroups = []\<rparr>"

definition request_with :: "string option \<Rightarrow> Context" where
  "request_with cookie =
     \<lparr>Request = cookie, ForwardedUri = ''/'', ClientIP = ''10.0.0.1'', Writer = []\<rparr>"

text \<open>Labels with nothing configured.\<close>

definition no_labels :: Labels where
  "no_labels = \<lparr>Users = [], Allowed = [], OAuth = \<lparr>Whitelist = [], Groups = []\<rparr>,
     IP = \<lparr>Allow = [], Block = []\<rparr>\<rparr>"

text \<open>
  A filter that knows single addresses only and rejects the
  entry \<open>not-an-ip\<close>; a pattern compiler that rejects the pattern \<open>(\<close> and whose compiled
  patterns match the strings they are a prefix of; a directory in which \<open>alice\<close> can bind
  and the service account cannot.
\<close>

definition example_filterIP :: "string \<Rightarrow> string \<Rightarrow> error + bool" where
  "example_filterIP entry ip =
     (if entry = ''not-an-ip'' then Inl (Error ''invalid IP address in filter'')
      else Inr (entry = ip))"

definition example_compile :: "string \<Rightarrow> error + string" where
  "example_compile pattern =
     (if pattern = ''('' then Inl (Error ''error parsing regexp: missing closing )'')
      else Inr pattern)"

definition example_matches :: "string \<Rightarrow> string \<Rightarrow> bool" where
  "example_matches regex uri = (take (length regex) uri = regex)"

definition example_ldap :: "nat LDAP" where
  "example_ldap =
     \<lparr>BindDN = ''cn=service,dc=example'', BindPassword = ''rotated'', Conn = 0,
      Bind = (\<lambda>conn dn password.
        if dn = ''uid=alice,dc=example'' \<and> password = ''secret'' then (None, Suc conn)
        else (Some (Error ''LDAP Result Code 49: Invalid Credentials''), Suc conn))\<rparr>"

section \<open>Arithmetic of the clock\<close>

lemma wrap64_id: "- (2 ^ 63) \<le> x \<Longrightarrow> x < 2 ^ 63 \<Longrightarrow> wrap64 x = x"
  by (simp add: wrap64_def)

lemma Seconds_of_id:
  assumes "0 < n" and "n * Second < 2 ^ 63"
  shows "Seconds_of n = n * Second"
proof -
  have "0 < n * Second" using assms(1) by (simp add: Second_def)
  then show ?thesis
    unfolding Seconds_of_def using assms(2) by (intro wrap64_id) auto
qed

lemma whole_seconds:
  assumes "0 \<le> d"
  shows "0 \<le> d div Second \<and> (0 < d div Second \<longleftrightarrow> Second \<le> d)"
  using assms by (auto simp: Second_def pos_imp_zdiv_nonneg_iff)

lemma Unix_Add_seconds: "Unix (Add now (n * Second)) = Unix now + n"
  by (simp add: Unix_def Add_def Second_def)

section \<open>Rounding to float64\<close>

lemma pow2_int_bounds:
  fixes a :: int
  assumes "0 < a"
  shows "(2::rat) powi (bitlen a - 1) \<le> of_int a \<and> (of_int a :: rat) < 2 powi bitlen a"
proof -
  have pos: "0 < bitlen a"
    using assms bitlen_eq_zero_iff [of a] bitlen_nonneg [of a] by (cases "bitlen a = 0") auto
  have "(2::int) ^ nat (bitlen a - 1) \<le> a" and "a < 2 ^ nat (bitlen a)"
    using bitlen_bounds [OF assms] by auto
  then have "(of_int ((2::int) ^ nat (bitlen a - 1)) :: rat) \<le> of_int a"
    and "(of_int a :: rat) < of_int ((2::int) ^ nat (bitlen a))"
    by (simp_all only: of_int_le_iff of_int_less_iff)
  moreover have "(2::rat) powi (bitlen a - 1) = 2 ^ nat (bitlen a - 1)"
    using pos by (simp add: power_int_def)
  moreover have "(2::rat) powi bitlen a = 2 ^ nat (bitlen a)"
    using pos by (simp add: power_int_def)
  ultimately show ?thesis by simp
qed

lemma binary_exponent_bounds:
  assumes "0 < x"
  shows "2 powi binary_exponent x \<le> x \<and> x < 2 powi (binary_exponent x + 1)"
proof -
  obtain a b where ab: "quotient_of x = (a, b)" by (cases "quotient_of x")
  have b: "0 < b" using ab quotient_of_denom_pos by blast
  have x: "x = of_int a / of_int b" using ab quotient_of_div by blast
  have a: "0 < a"
    using assms b x by (simp add: zero_less_divide_iff)
  define k where "k = bitlen a - bitlen b"
  note A = pow2_int_bounds [OF a] and B = pow2_int_bounds [OF b]
  have bpos: "(0::rat) < of_int b" using b by simp
  have upper: "x < 2 powi (k + 1)"
  proof -
    have "x < 2 powi bitlen a / of_int b"
      unfolding x using A bpos by (simp add: divide_strict_right_mono)
    also have "\<dots> \<le> 2 powi bitlen a / 2 powi (bitlen b - 1)"
      using B bpos by (intro divide_left_mono) (auto intro!: mult_pos_pos)
    also have "\<dots> = 2 powi (k + 1)"
      by (simp add: k_def power_int_diff [symmetric] algebra_simps)
    finally show ?thesis .
  qed
  have lower: "2 powi (k - 1) \<le> x"
  proof -
    have "(2::rat) powi (k - 1) = 2 powi (bitlen a - 1) / 2 powi bitlen b"
      by (simp add: k_def power_int_diff [symmetric] algebra_simps)
    also have "\<dots> \<le> of_int a / 2 powi bitlen b"
      using A by (simp add: divide_right_mono)
    also have "\<dots> \<le> of_int a / of_int b"
      using B a bpos by (intro divide_left_mono) (auto intro!: mult_pos_pos)
    finally show ?thesis by (simp add: x)
  qed
  have e: "binary_exponent x = (if 2 powi k \<le> x then k else k - 1)"
    by (simp add: binary_exponent_def ab k_def)
  show ?thesis
  proof (cases "2 powi k \<le> x")
    case True
    then show ?thesis using e upper by simp
  next
    case False
    then show ?thesis using e lower by simp
  qed
qed

lemma round_even_nearest: "\<bar>of_int (round_even y) - y\<bar> \<le> \<bar>of_int k - y\<bar>"
proof -
  define f where "f = \<lfloor>y\<rfloor>"
  have f: "of_int f \<le> y" "y < of_int f + 1"
    unfolding f_def by linarith+
  consider "k \<le> f" | "f + 1 \<le> k" by linarith
  then have k: "(of_int k :: rat) \<le> of_int f \<or> (of_int f :: rat) + 1 \<le> of_int k"
  proof cases
    case 1
    then show ?thesis by simp
  next
    case 2
    then have "(of_int (f + 1) :: rat) \<le> of_int k" by (simp only: of_int_le_iff)
    then show ?thesis by simp
  qed
  have "round_even y = f \<or> round_even y = f + 1"
    by (auto simp: round_even_def Let_def f_def)
  moreover have "y - of_int f \<le> 1 / 2" if "round_even y = f" "round_even y \<noteq> f + 1"
    using that by (auto simp: round_even_def Let_def f_def split: if_splits)
  moreover have "1 / 2 \<le> y - of_int f" if "round_even y = f + 1"
    using that by (auto simp: round_even_def Let_def f_def split: if_splits)
  ultimately show ?thesis
    using f k by (cases "round_even y = f + 1") auto
qed

lemma float64_nearest:
  assumes "0 < x" and "representable r"
  shows "\<bar>float64 x - x\<bar> \<le> \<bar>r - x\<bar>"
proof -
  define e where "e = binary_exponent x"
  define u :: rat where "u = 2 powi (e - 52)"
  define m where "m = round_even (x / u)"
  have u: "0 < u" by (simp add: u_def)
  have R: "float64 x = of_int m * u"
    using assms(1) by (simp add: float64_def Let_def m_def u_def e_def)
  have multiple: "\<bar>float64 x - x\<bar> \<le> \<bar>of_int k * u - x\<bar>" for k
  proof -
    have "\<bar>of_int m - x / u\<bar> \<le> \<bar>of_int k - x / u\<bar>"
      unfolding m_def by (rule round_even_nearest)
    then have "u * \<bar>of_int m - x / u\<bar> \<le> u * \<bar>of_int k - x / u\<bar>"
      using u by (simp add: mult_left_mono)
    moreover have "u * \<bar>of_int j - x / u\<bar> = \<bar>of_int j * u - x\<bar>" for j
    proof -
      have "u * \<bar>of_int j - x / u\<bar> = \<bar>u * (of_int j - x / u)\<bar>"
        using u by (simp add: abs_mult)
      also have "u * (of_int j - x / u) = of_int j * u - x"
        using u by (simp add: field_simps)
      finally show ?thesis .
    qed
    ultimately show ?thesis by (simp add: R)
  qed
  have lo: "(2::rat) powi e = of_int (2 ^ 52) * u"
    unfolding u_def by (simp add: power_int_diff)
  have hi: "(2::rat) powi (e + 1) = of_int (2 ^ 53) * u"
    unfolding u_def by (simp add: power_int_diff power_int_add)
  have x: "2 powi e \<le> x" "x < 2 powi (e + 1)"
    using binary_exponent_bounds [OF assms(1)] by (simp_all add: e_def)
  consider "r \<le> 2 powi e" | "2 powi (e + 1) \<le> r" | "2 powi e < r" "r < 2 powi (e + 1)"
    by linarith
  then show ?thesis
  proof cases
    case 1
    then show ?thesis
      using multiple [of "2 ^ 52"] x unfolding lo [symmetric] by linarith
  next
    case 2
    then show ?thesis
      using multiple [of "2 ^ 53"] x unfolding hi [symmetric] by linarith
  next
    case 3
    obtain m' e' where m': "\<bar>m'\<bar> < 2 ^ 53" and r: "r = of_int m' * 2 powi e'"
      using assms(2) by (auto simp: representable_def)
    have "0 < r" using 3(1) zero_less_power_int [of "2::rat" e] by linarith
    then have "(0::rat) < of_int m' * 2 powi e'"
      using r by simp
    then have "(0::rat) < of_int m'"
      by (rule zero_less_mult_pos2) simp
    then have mpos: "0 < m'"
      by simp
    have "e - 52 \<le> e'"
    proof (rule ccontr)
      assume "\<not> e - 52 \<le> e'"
      then have le: "e' + 53 \<le> e" by simp
      have "m' < 2 ^ 53"
        using m' by simp
      then have "(of_int m' :: rat) < of_int (2 ^ 53)"
        by (simp only: of_int_less_iff)
      then have "r < of_int (2 ^ 53) * 2 powi e'"
        unfolding r by (simp add: mult_strict_right_mono)
      also have "\<dots> = 2 powi (e' + 53)"
        by (simp add: power_int_add)
      also have "\<dots> \<le> 2 powi e"
        using le by (intro power_int_increasing) auto
      finally show False using 3(1) by simp
    qed
    then obtain n where n: "e' = e - 52 + int n"
      by (metis zle_iff_zadd)
    have "(2::rat) powi e' = of_int (2 ^ n) * u"
      unfolding n u_def by (simp add: power_int_add)
    then have "r = of_int (m' * 2 ^ n) * u"
      unfolding r by simp
    then show ?thesis
      using multiple [of "m' * 2 ^ n"] by simp
  qed
qed

lemma float64_representable:
  assumes "0 \<le> r" and "representable r"
  shows "float64 r = r"
proof (cases "r = 0")
  case True
  then show ?thesis by (simp add: float64_def)
next
  case False
  then have "0 < r" using assms(1) by simp
  then show ?thesis
    using float64_nearest [OF _ assms(2), of r] by simp
qed

lemma representable_int: "\<bar>n\<bar> < 2 ^ 53 \<Longrightarrow> representable (of_int n)"
  unfolding representable_def by (rule exI [of _ n], rule exI [of _ 0]) simp

lemma representable_scaled: "\<bar>n\<bar> < 2 ^ 53 \<Longrightarrow> representable (of_int n * 2 powi e)"
  unfolding representable_def by blast

text \<open>
  \<open>float64\<close> gives a nearest representable number: no representable number is closer to
  \<open>x\<close> than \<open>float64 x\<close> is. What follows about the seconds of a duration rests on this
  alone.
\<close>

lemma float64_zero: "float64 0 = 0"
  by (simp add: float64_def)

lemma quo_rem_nonneg:
  assumes "0 \<le> d"
  shows "quo d Second = d div Second" and "rem d Second = d mod Second"
proof -
  show q: "quo d Second = d div Second"
    using assms by (simp add: quo_def Second_def)
  show "rem d Second = d mod Second"
    unfolding rem_def q by (simp add: minus_mult_div_eq_mod)
qed

text \<open>
  The fraction of a second, as a float64, lies between 0 and \<open>1 - 2^-30 - 2^-53\<close>, which is
  a float64 above \<open>0.999999999\<close>.
\<close>

lemma float64_fraction:
  assumes "0 \<le> nsec" and "nsec < 1000000000"
  shows "0 \<le> float64 (float64 (of_int nsec) / 1000000000) \<and>
     float64 (float64 (of_int nsec) / 1000000000) \<le> 9007199246352383 / 9007199254740992"
proof -
  have "representable (of_int nsec)"
    using assms by (intro representable_int) simp
  then have exact: "float64 (of_int nsec) = of_int nsec"
    using assms(1) by (intro float64_representable) simp_all
  define y :: rat where "y = of_int nsec / 1000000000"
  have "nsec \<le> 999999999" using assms(2) by simp
  then have "(of_int nsec :: rat) \<le> of_int 999999999" by (simp only: of_int_le_iff)
  then have y: "0 \<le> y" "y \<le> 999999999 / 1000000000"
    using assms(1) by (simp_all add: y_def)
  have eq: "float64 (float64 (of_int nsec) / 1000000000) = float64 y"
    by (simp only: exact y_def)
  have "0 \<le> float64 y \<and> float64 y \<le> 9007199246352383 / 9007199254740992"
  proof (cases "y = 0")
    case True
    then show ?thesis by (simp add: float64_zero)
  next
    case False
    then have pos: "0 < y" using y(1) by simp
    have zero: "representable 0"
      using representable_int [of 0] by simp
    have "representable (of_int 9007199246352383 * 2 powi (- 53))"
      by (rule representable_scaled) simp
    then have top: "representable (9007199246352383 / 9007199254740992)"
      by simp
    show ?thesis
      using float64_nearest [OF pos zero] float64_nearest [OF pos top] y
      by linarith
  qed
  then show ?thesis
    by (simp only: eq)
qed

lemma float64_Seconds:
  assumes "0 \<le> d" and "d div Second < 2 ^ 53 - 1"
  shows "of_int (d div Second) \<le> Seconds d \<and> Seconds d \<le> of_int (d div Second) + 1 \<and>
     (d div Second < 2 ^ 24 \<longrightarrow> Seconds d < of_int (d div Second) + 1) \<and>
     (d mod Second = 0 \<longrightarrow> Seconds d = of_int (d div Second))"
proof -
  define sec where "sec = d div Second"
  define q where "q = float64 (float64 (of_int (d mod Second)) / 1000000000)"
  have sec: "0 \<le> sec" "sec < 2 ^ 53 - 1"
    using assms by (simp_all add: sec_def Second_def pos_imp_zdiv_nonneg_iff)
  have nsec: "0 \<le> d mod Second" "d mod Second < 1000000000"
    by (simp_all add: Second_def)
  have q: "0 \<le> q" "q \<le> 9007199246352383 / 9007199254740992"
    using float64_fraction [OF nsec] by (simp_all only: q_def)
  have rsec: "representable (of_int sec)"
    using sec by (intro representable_int) simp
  have "(0::rat) \<le> of_int sec" using sec(1) by simp
  then have exact: "float64 (of_int sec) = of_int sec"
    using rsec by (rule float64_representable)
  have S: "Seconds d = float64 (of_int sec + q)"
    unfolding Seconds_def Let_def quo_rem_nonneg [OF assms(1)]
    by (simp only: sec_def [symmetric] q_def [symmetric] exact)
  have whole: "Seconds d = of_int sec" if "d mod Second = 0"
  proof -
    have "q = 0" unfolding q_def that by (simp add: float64_zero)
    then show ?thesis using S exact by simp
  qed
  have "Seconds d \<le> of_int sec + 1 \<and> of_int sec \<le> Seconds d \<and>
      (sec < 2 ^ 24 \<longrightarrow> Seconds d < of_int sec + 1)"
  proof (cases "of_int sec + q = 0")
    case True
    then have "Seconds d = 0" using S by (simp add: float64_zero)
    moreover have "(of_int sec :: rat) = 0"
      using True sec(1) q(1) by (simp add: add_nonneg_eq_0_iff)
    ultimately show ?thesis by simp
  next
    case False
    then have pos: "0 < of_int sec + q"
      using sec(1) q(1) by (simp add: add_nonneg_nonneg less_le)
    have "representable (of_int (sec + 1))"
      using sec by (intro representable_int) simp
    then have rnext: "representable (of_int sec + 1)" by simp
    have lower: "of_int sec \<le> Seconds d" and upper: "Seconds d \<le> of_int sec + 1"
      using float64_nearest [OF pos rsec] float64_nearest [OF pos rnext] q
      unfolding S by linarith+
    have strict: "Seconds d < of_int sec + 1" if small: "sec < 2 ^ 24"
    proof -
      have bound: "\<bar>(sec + 1) * 2 ^ 29 - 1\<bar> < 2 ^ 53"
        using sec(1) small by simp
      have eqn: "(of_int sec :: rat) + 1 - 1 / 536870912 =
          of_int ((sec + 1) * 2 ^ 29 - 1) * 2 powi (- 29)"
        by (simp add: field_simps)
      have r: "representable (of_int sec + 1 - 1 / 536870912)"
        unfolding eqn using bound by (rule representable_scaled)
      show ?thesis
        using float64_nearest [OF pos r] q
        unfolding S by linarith
    qed
    show ?thesis
      using lower upper strict by blast
  qed
  then show ?thesis
    using whole unfolding sec_def by blast
qed

lemma float64_to_int_Seconds:
  assumes "0 \<le> d" and "d div Second < 2 ^ 53 - 1"
  shows "d div Second \<le> float64_to_int (Seconds d) \<and>
     float64_to_int (Seconds d) \<le> d div Second + 1 \<and>
     (d div Second < 2 ^ 24 \<longrightarrow> float64_to_int (Seconds d) = d div Second) \<and>
     (d mod Second = 0 \<longrightarrow> float64_to_int (Seconds d) = d div Second)"
proof -
  define sec where "sec = d div Second"
  note bounds = float64_Seconds [OF assms, folded sec_def]
  note S = bounds [THEN conjunct1] bounds [THEN conjunct2, THEN conjunct1]
    bounds [THEN conjunct2, THEN conjunct2, THEN conjunct1, rule_format]
    bounds [THEN conjunct2, THEN conjunct2, THEN conjunct2, rule_format]
  have "0 \<le> sec"
    using assms(1) by (simp add: sec_def Second_def pos_imp_zdiv_nonneg_iff)
  then have "(0::rat) \<le> of_int sec" by simp
  then have "0 \<le> Seconds d"
    using S(1) by (rule order_trans)
  then have F: "float64_to_int (Seconds d) = \<lfloor>Seconds d\<rfloor>"
    by (simp add: float64_to_int_def)
  have lower: "sec \<le> \<lfloor>Seconds d\<rfloor>"
    using S(1) by (simp only: le_floor_iff)
  have "Seconds d < of_int (sec + 1) + 1"
    using S(2) by simp
  then have upper: "\<lfloor>Seconds d\<rfloor> \<le> sec + 1"
    by (simp only: floor_le_iff)
  have exact: "\<lfloor>Seconds d\<rfloor> = sec" if "Seconds d < of_int sec + 1"
    using S(1) that by (rule floor_unique)
  have whole: "\<lfloor>Seconds d\<rfloor> = sec" if "d mod Second = 0"
    using S(4) [OF that] by simp
  show ?thesis
    unfolding F sec_def [symmetric] using lower upper exact S(3) whole by blast
qed

text \<open>
  The remaining seconds of \<^verbatim>\<open>IsAccountLocked\<close> for a lock instant \<open>t\<close> that the second clock
  reading has not passed: the whole seconds of \<open>t - now'\<close> rounded down, or one more; the
  whole seconds rounded down when less than \<open>2 ^ 24\<close> seconds remain, and when a whole
  number of seconds remains.
\<close>

lemma remaining_seconds:
  assumes "now' \<le> t" and "t - now' < 2 ^ 63"
  shows "(t - now') div Second \<le> float64_to_int (Seconds (Until t now')) \<and>
     float64_to_int (Seconds (Until t now')) \<le> (t - now') div Second + 1 \<and>
     (t - now' < 2 ^ 24 * Second \<longrightarrow>
        float64_to_int (Seconds (Until t now')) = (t - now') div Second) \<and>
     ((t - now') mod Second = 0 \<longrightarrow>
        float64_to_int (Seconds (Until t now')) = (t - now') div Second)"
proof -
  have U: "Until t now' = t - now'"
    using assms by (simp add: Until_def Sub_def Let_def maxDuration_def minDuration_def)
  have nonneg: "0 \<le> t - now'"
    using assms(1) by simp
  have "(t - now') div Second < 2 ^ 53 - 1"
    using assms(2) by (simp add: Second_def)
  note bounds = float64_to_int_Seconds [OF nonneg this]
  have small: "(t - now') div Second < 2 ^ 24" if "t - now' < 2 ^ 24 * Second"
    using that by (simp add: Second_def)
  have "float64_to_int (Seconds (t - now')) = (t - now') div Second"
    if "t - now' < 2 ^ 24 * Second"
    using bounds [THEN conjunct2, THEN conjunct2, THEN conjunct1, rule_format, OF small [OF that]] .
  then show ?thesis
    unfolding U
    using bounds [THEN conjunct1] bounds [THEN conjunct2, THEN conjunct1]
      bounds [THEN conjunct2, THEN conjunct2, THEN conjunct2]
    by (intro conjI impI) auto
qed

text \<open>
  Beyond \<open>2 ^ 24\<close> seconds the float64 sum can round up to the next second: one nanosecond
  short of 16777217 seconds converts to 16777217, while one nanosecond short of 16777216
  seconds converts to 16777215.
\<close>

lemma Seconds_rounds_up: "float64_to_int (Seconds 16777216999999999) = 16777217"
  by code_simp

lemma Seconds_rounds_down: "float64_to_int (Seconds 16777215999999999) = 16777215"
  by code_simp

section \<open>The rate limiter, step by step\<close>

lemma RecordLoginAttempt_success:
  "0 < LoginMaxRetries cfg \<Longrightarrow> 0 < LoginTimeout cfg \<Longrightarrow>
   RecordLoginAttempt cfg attempts identifier True now now' identifier =
     Some ((case attempts identifier of None \<Rightarrow> newLoginAttempt | Some a \<Rightarrow> a)
       \<lparr>LastAttempt := now, FailedAttempts := 0, LockedUntil := zeroTime\<rparr>)"
  by (simp add: RecordLoginAttempt_def Let_def)

lemma RecordLoginAttempt_failure:
  assumes "0 < LoginMaxRetries cfg" and "0 < LoginTimeout cfg"
    and "0 \<le> failed_count attempts identifier"
    and "failed_count attempts identifier < 2 ^ 63 - 1"
  shows "RecordLoginAttempt cfg attempts identifier False now now' identifier =
     Some ((case attempts identifier of None \<Rightarrow> newLoginAttempt | Some a \<Rightarrow> a)
       \<lparr>LastAttempt := now,
        FailedAttempts := failed_count attempts identifier + 1,
        LockedUntil :=
          (if LoginMaxRetries cfg \<le> failed_count attempts identifier + 1
           then now' + Seconds_of (LoginTimeout cfg)
           else LockedUntil (case attempts identifier of None \<Rightarrow> newLoginAttempt | Some a \<Rightarrow> a))\<rparr>)"
proof -
  have w: "wrap64 (failed_count attempts identifier + 1) = failed_count attempts identifier + 1"
    using assms(3,4) by (intro wrap64_id) auto
  show ?thesis
    using assms(1,2) w
    by (cases "attempts identifier")
       (auto simp: RecordLoginAttempt_def Let_def failed_count_def newLoginAttempt_def Add_def)
qed

lemma failed_count_failure:
  assumes "0 < LoginMaxRetries cfg" and "0 < LoginTimeout cfg"
    and "0 \<le> failed_count attempts identifier"
    and "failed_count attempts identifier < 2 ^ 63 - 1"
  shows "failed_count (RecordLoginAttempt cfg attempts identifier False now now') identifier =
     failed_count attempts identifier + 1"
  using RecordLoginAttempt_failure [OF assms, of now now']
  by (simp add: failed_count_def)

lemma record_failures_count:
  assumes "0 < LoginMaxRetries cfg" and "0 < LoginTimeout cfg"
  shows "0 \<le> failed_count attempts identifier \<Longrightarrow>
     failed_count attempts identifier + int (length ts) < 2 ^ 63 \<Longrightarrow>
     failed_count (record_failures cfg attempts identifier ts) identifier =
       failed_count attempts identifier + int (length ts)"
proof (induction ts arbitrary: attempts)
  case Nil
  then show ?case by simp
next
  case (Cons t ts)
  obtain now now' where t: "t = (now, now')" by (cases t)
  let ?next = "RecordLoginAttempt cfg attempts identifier False now now'"
  have step: "failed_count ?next identifier = failed_count attempts identifier + 1"
    using Cons.prems by (intro failed_count_failure assms) auto
  have "failed_count (record_failures cfg ?next identifier ts) identifier =
      failed_count ?next identifier + int (length ts)"
    using Cons.prems step by (intro Cons.IH) auto
  then show ?case
    using step t by simp
qed

lemma record_failures_snoc:
  "record_failures cfg attempts identifier (ts @ [(now, now')]) =
     RecordLoginAttempt cfg (record_failures cfg attempts identifier ts) identifier False now now'"
  by (induction ts arbitrary: attempts) auto

lemma record_failures_locks:
  assumes "0 < LoginMaxRetries cfg" and "0 < LoginTimeout cfg"
    and "0 \<le> failed_count attempts identifier"
    and "failed_count attempts identifier + int (length ts) < 2 ^ 63"
    and "ts \<noteq> []"
    and "LoginMaxRetries cfg \<le> failed_count attempts identifier + int (length ts)"
  shows "\<exists>a. record_failures cfg attempts identifier ts identifier = Some a \<and>
     LockedUntil a = snd (last ts) + Seconds_of (LoginTimeout cfg)"
proof -
  obtain us now now' where ts: "ts = us @ [(now, now')]"
    using assms(5) by (metis rev_exhaust surj_pair)
  let ?before = "record_failures cfg attempts identifier us"
  have count: "failed_count ?before identifier = failed_count attempts identifier + int (length us)"
    using assms(3,4) ts by (intro record_failures_count assms) auto
  have "RecordLoginAttempt cfg ?before identifier False now now' identifier =
     Some ((case ?before identifier of None \<Rightarrow> newLoginAttempt | Some a \<Rightarrow> a)
       \<lparr>LastAttempt := now,
        FailedAttempts := failed_count ?before identifier + 1,
        LockedUntil :=
          (if LoginMaxRetries cfg \<le> failed_count ?before identifier + 1
           then now' + Seconds_of (LoginTimeout cfg)
           else LockedUntil (case ?before identifier of None \<Rightarrow> newLoginAttempt | Some a \<Rightarrow> a))\<rparr>)"
    using assms(3,4) ts count by (intro RecordLoginAttempt_failure assms) auto
  then show ?thesis
    using assms(6) ts count by (simp add: record_failures_snoc)
qed

lemma IsAccountLocked_locked:
  assumes "0 < LoginMaxRetries cfg" and "0 < LoginTimeout cfg"
    and "attempts identifier = Some a" and "now < LockedUntil a"
  shows "IsAccountLocked cfg attempts identifier now now' =
     (True, float64_to_int (Seconds (Until (LockedUntil a) now')))"
  using assms by (simp add: IsAccountLocked_def After_def)

lemma IsAccountLocked_open:
  assumes "attempts identifier = Some a" and "LockedUntil a \<le> now"
  shows "IsAccountLocked cfg attempts identifier now now' = (False, 0)"
  using assms by (simp add: IsAccountLocked_def After_def)

section \<open>The session cookie, step by step\<close>

lemma Request_SetCookie: "Request (SetCookie c v maxAge) = Request c"
  by (simp add: SetCookie_def)

lemma GetSession_ok:
  "Get store (Request c) = Inr session \<Longrightarrow> GetSession store c = (c, Inr session)"
  by (simp add: GetSession_def)

lemma GetSession_err:
  "Get store (Request c) = Inl err \<Longrightarrow> GetSession store c = (SetCookie c [] (- 1), Inl err)"
  by (simp add: GetSession_def Let_def Request_SetCookie)

lemma CreateSessionCookie_ok:
  assumes "CreateSessionCookie cfg store c data now = (c', None)"
  shows "\<exists>session text. Get store (Request c) = Inr session \<and>
     Save store (setSessionValues cfg session data now) = Inr text \<and>
     c' = SetCookie c text (SessionExpiry cfg)"
proof (cases "Get store (Request c)")
  case (Inl err)
  then show ?thesis
    using assms by (simp add: CreateSessionCookie_def GetSession_err)
next
  case (Inr session)
  then show ?thesis
    using assms
    by (cases "Save store (setSessionValues cfg session data now)")
       (auto simp: CreateSessionCookie_def GetSession_ok)
qed

lemma DeleteSessionCookie_ok:
  assumes "Get store (Request c) = Inr session" and "Save store Map.empty = Inr cleared"
  shows "DeleteSessionCookie cfg store c = (SetCookie c cleared (SessionExpiry cfg), None)"
  using assms by (simp add: DeleteSessionCookie_def GetSession_ok)

lemma GetSessionCookie_created:
  assumes "Get store (Request c) = Inr (setSessionValues cfg session data t)"
  shows "GetSessionCookie cfg store c now =
     (if Unix (Add t (Seconds_of (if TotpPending data then 3600 else SessionExpiry cfg))) < Unix now
      then (fst (DeleteSessionCookie cfg store c), emptySessionCookie, None)
      else (c, data, None))"
  using assms
  by (cases data) (simp add: GetSessionCookie_def GetSession_ok setSessionValues_def Let_def)

lemma GetSessionCookie_nonempty:
  assumes "GetSessionCookie cfg store c now = (c', cookie, err)" and "cookie \<noteq> emptySessionCookie"
  shows "\<exists>session expiry. Get store (Request c) = Inr session \<and>
     session ''expiry'' = Some (VInt64 expiry) \<and> Unix now \<le> expiry"
proof (cases "Get store (Request c)")
  case (Inl e)
  then show ?thesis
    using assms by (simp add: GetSessionCookie_def GetSession_err)
next
  case (Inr session)
  show ?thesis
  proof (cases "session ''expiry''")
    case None
    then show ?thesis
      using assms Inr by (simp add: GetSessionCookie_def GetSession_ok Let_def split: prod.splits)
  next
    case (Some v)
    then show ?thesis
      using assms Inr
      by (cases v)
         (auto simp: GetSessionCookie_def GetSession_ok Let_def split: prod.splits if_splits)
  qed
qed

lemma GetSessionCookie_decoded_no_error:
  assumes "Get store (Request c) = Inr session"
  shows "snd (snd (GetSessionCookie cfg store c now)) = None"
  using assms
  by (simp add: GetSessionCookie_def GetSession_ok Let_def split: prod.splits)

lemma example_store_decodes: "decodes_what_it_encodes (example_store session)"
  by (simp add: decodes_what_it_encodes_def example_store_def)

lemma setSessionValues_nonempty: "setSessionValues cfg session data now \<noteq> Map.empty"
  by (simp add: setSessionValues_def Let_def)

lemma setSessionValues_nonempty': "Map.empty \<noteq> setSessionValues cfg session data now"
  by (rule not_sym) (rule setSessionValues_nonempty)

lemma example_create:
  "CreateSessionCookie cfg (example_store (setSessionValues cfg Map.empty data now))
     (request_with None) data now =
     (SetCookie (request_with None) ''session'' (SessionExpiry cfg), None)"
  by (simp add: CreateSessionCookie_def GetSession_def example_store_def request_with_def)

section \<open>The access policy, step by step\<close>

lemma CheckIP_block_iff:
  "CheckIP_block filterIP ip entries =
     (if \<exists>blocked \<in> set entries. filterIP blocked ip = Inr True then Some False else None)"
  by (induction entries) (auto split: sum.splits)

lemma CheckIP_allow_iff:
  "CheckIP_allow filterIP ip entries =
     (if \<exists>allowed \<in> set entries. filterIP allowed ip = Inr True then Some True else None)"
  by (induction entries) (auto split: sum.splits)

lemma CheckIP_iff:
  "CheckIP filterIP c labels \<longleftrightarrow>
     \<not> (\<exists>blocked \<in> set (Block (IP labels)). filterIP blocked (ClientIP c) = Inr True) \<and>
     (Allow (IP labels) = [] \<or>
      (\<exists>allowed \<in> set (Allow (IP labels)). filterIP allowed (ClientIP c) = Inr True))"
  by (auto simp: CheckIP_def Let_def CheckIP_block_iff CheckIP_allow_iff)

text \<open>
  \<open>Split\<close> gives one piece more than there are separators, no piece holds the separator,
  and the pieces in order are the string without its separators.
\<close>

lemma Split_nonempty: "Split s sep \<noteq> []"
  by (induction s) (auto split: list.splits)

lemma Split_pieces: "piece \<in> set (Split s sep) \<Longrightarrow> sep \<notin> set piece"
proof (induction s arbitrary: piece)
  case Nil
  then show ?case by simp
next
  case (Cons c s)
  then show ?case
    using Split_nonempty [of s sep]
    by (cases "Split s sep") (auto split: if_splits)
qed

lemma Split_concat: "concat (Split s sep) = filter (\<lambda>c. c \<noteq> sep) s"
  by (induction s) (auto split: list.splits)

lemma Split_length: "length (Split s sep) = Suc (count_list s sep)"
  by (induction s) (auto split: list.splits)

lemma OAuthGroup_loop_iff:
  "OAuthGroup_loop check required oauthGroups \<longleftrightarrow> (\<exists>grp \<in> set oauthGroups. check required grp)"
  by (induction oauthGroups) auto

section \<open>Claims about sessions\<close>

text \<open>
  Claim C1, as the code has it. The store decodes what it encodes, and
  \<^verbatim>\<open>CreateSessionCookie\<close> succeeded for a record. Then it wrote one cookie to the response,
  and for every later request that carries this cookie: while the clock's whole second is
  not past the stored expiry (\<open>Unix now \<le> expiry\<close>, the second of the expiry included),
  \<^verbatim>\<open>GetSessionCookie\<close> returns the same username, name, email, provider, totpPending and
  oauthGroups, with no error and without touching the response; once the clock's whole
  second is past the stored expiry (\<open>expiry < Unix now\<close>), it returns the empty record with
  no error and the response is the one \<^verbatim>\<open>DeleteSessionCookie\<close> leaves, which holds a cookie
  with the encoding of the empty session when the store can encode it. For every request,
  a read result that is not the empty record comes from a decoded session whose stored
  expiry is not before the clock's whole second.
\<close>

theorem session_round_trip:
  assumes codec: "decodes_what_it_encodes store"
    and create: "CreateSessionCookie cfg store c data now = (c', None)"
  shows "\<exists>text. Writer c' = Writer c @ [\<lparr>Value = text, MaxAge = SessionExpiry cfg\<rparr>] \<and>
     (\<forall>c2 now2. Request c2 = Some text \<longrightarrow>
        (Unix now2 \<le> Unix (Add now (Seconds_of (if TotpPending data then 3600 else SessionExpiry cfg))) \<longrightarrow>
           GetSessionCookie cfg store c2 now2 = (c2, data, None)) \<and>
        (Unix (Add now (Seconds_of (if TotpPending data then 3600 else SessionExpiry cfg))) < Unix now2 \<longrightarrow>
           GetSessionCookie cfg store c2 now2 =
             (fst (DeleteSessionCookie cfg store c2), emptySessionCookie, None) \<and>
           (\<forall>cleared. Save store Map.empty = Inr cleared \<longrightarrow>
              fst (DeleteSessionCookie cfg store c2) = SetCookie c2 cleared (SessionExpiry cfg)))) \<and>
     (\<forall>c3 now3 c4 cookie err.
        GetSessionCookie cfg store c3 now3 = (c4, cookie, err) \<and> cookie \<noteq> emptySessionCookie \<longrightarrow>
        (\<exists>session expiry. Get store (Request c3) = Inr session \<and>
           session ''expiry'' = Some (VInt64 expiry) \<and> Unix now3 \<le> expiry))"
proof -
  obtain session enc where
    saved: "Save store (setSessionValues cfg session data now) = Inr enc"
    and c': "c' = SetCookie c enc (SessionExpiry cfg)"
    using CreateSessionCookie_ok [OF create] by blast
  have decoded: "Get store (Some enc) = Inr (setSessionValues cfg session data now)"
    using codec saved by (simp add: decodes_what_it_encodes_def)
  have written: "Writer c' = Writer c @ [\<lparr>Value = enc, MaxAge = SessionExpiry cfg\<rparr>]"
    using c' by (simp add: SetCookie_def)
  have read: "GetSessionCookie cfg store c2 now2 =
      (if Unix (Add now (Seconds_of (if TotpPending data then 3600 else SessionExpiry cfg))) < Unix now2
       then (fst (DeleteSessionCookie cfg store c2), emptySessionCookie, None)
       else (c2, data, None))" if "Request c2 = Some enc" for c2 now2
    using decoded that by (intro GetSessionCookie_created) simp
  have cleared: "fst (DeleteSessionCookie cfg store c2) = SetCookie c2 cleared (SessionExpiry cfg)"
    if "Request c2 = Some enc" "Save store Map.empty = Inr cleared" for c2 cleared
    using DeleteSessionCookie_ok [of store c2 _ cleared cfg] decoded that by simp
  have live: "\<exists>session expiry. Get store (Request c3) = Inr session \<and>
      session ''expiry'' = Some (VInt64 expiry) \<and> Unix now3 \<le> expiry"
    if "GetSessionCookie cfg store c3 now3 = (c4, cookie, err)" "cookie \<noteq> emptySessionCookie"
    for c3 now3 c4 cookie err
    using that by (rule GetSessionCookie_nonempty)
  have "\<forall>c2 now2. Request c2 = Some enc \<longrightarrow>
        (Unix now2 \<le> Unix (Add now (Seconds_of (if TotpPending data then 3600 else SessionExpiry cfg))) \<longrightarrow>
           GetSessionCookie cfg store c2 now2 = (c2, data, None)) \<and>
        (Unix (Add now (Seconds_of (if TotpPending data then 3600 else SessionExpiry cfg))) < Unix now2 \<longrightarrow>
           GetSessionCookie cfg store c2 now2 =
             (fst (DeleteSessionCookie cfg store c2), emptySessionCookie, None) \<and>
           (\<forall>cleared. Save store Map.empty = Inr cleared \<longrightarrow>
              fst (DeleteSessionCookie cfg store c2) = SetCookie c2 cleared (SessionExpiry cfg)))"
    using read cleared by auto
  then show ?thesis
    using written live by blast
qed

text \<open>
  The theorem at a session for \<open>alice\<close> of one day: read back one second later, and
  expired one second after the day.
\<close>

theorem session_round_trip_witness:
  "decodes_what_it_encodes
     (example_store (setSessionValues example_config Map.empty alice 1700000000000000000)) \<and>
   CreateSessionCookie example_config
     (example_store (setSessionValues example_config Map.empty alice 1700000000000000000))
     (request_with None) alice 1700000000000000000 =
     (SetCookie (request_with None) ''session'' 86400, None) \<and>
   GetSessionCookie example_config
     (example_store (setSessionValues example_config Map.empty alice 1700000000000000000))
     (request_with (Some ''session'')) 1700000001000000000 =
     (request_with (Some ''session''), alice, None) \<and>
   GetSessionCookie example_config
     (example_store (setSessionValues example_config Map.empty alice 1700000000000000000))
     (request_with (Some ''session'')) 1700086401000000000 =
     (SetCookie (request_with (Some ''session'')) ''cleared'' 86400, emptySessionCookie, None)"
proof -
  let ?store = "example_store (setSessionValues example_config Map.empty alice 1700000000000000000)"
  let ?c2 = "request_with (Some ''session'')"
  have codec: "decodes_what_it_encodes ?store"
    by (rule example_store_decodes)
  have create: "CreateSessionCookie example_config ?store (request_with None) alice
      1700000000000000000 = (SetCookie (request_with None) ''session'' 86400, None)"
    using example_create [of example_config alice 1700000000000000000]
    by (simp add: example_config_def)
  have expiry: "Unix (Add 1700000000000000000
      (Seconds_of (if TotpPending alice then 3600 else SessionExpiry example_config))) = 1700086400"
    by (simp add: alice_def example_config_def Seconds_of_def wrap64_def Second_def Add_def Unix_def)
  obtain enc where
    written: "Writer (SetCookie (request_with None) ''session'' 86400) =
       Writer (request_with None) @ [\<lparr>Value = enc, MaxAge = SessionExpiry example_config\<rparr>]"
    and read: "\<forall>c2 now2. Request c2 = Some enc \<longrightarrow>
        (Unix now2 \<le> 1700086400 \<longrightarrow>
           GetSessionCookie example_config ?store c2 now2 = (c2, alice, None)) \<and>
        (1700086400 < Unix now2 \<longrightarrow>
           GetSessionCookie example_config ?store c2 now2 =
             (fst (DeleteSessionCookie example_config ?store c2), emptySessionCookie, None) \<and>
           (\<forall>cleared. Save ?store Map.empty = Inr cleared \<longrightarrow>
              fst (DeleteSessionCookie example_config ?store c2) =
                SetCookie c2 cleared (SessionExpiry example_config)))"
    using session_round_trip [OF codec create] unfolding expiry by blast
  have enc: "enc = ''session''"
    using written by (simp add: SetCookie_def)
  have request: "Request ?c2 = Some enc"
    using enc by (simp add: request_with_def)
  have live: "GetSessionCookie example_config ?store ?c2 1700000001000000000 = (?c2, alice, None)"
    using read [rule_format, OF request, of 1700000001000000000, THEN conjunct1]
    by (simp add: Unix_def Second_def)
  have cleared: "Save ?store Map.empty = Inr ''cleared''"
    by (simp add: example_store_def setSessionValues_nonempty')
  have expired: "GetSessionCookie example_config ?store ?c2 1700086401000000000 =
      (SetCookie ?c2 ''cleared'' 86400, emptySessionCookie, None)"
    using read [rule_format, OF request, of 1700086401000000000, THEN conjunct2] cleared
    by (simp add: Unix_def Second_def example_config_def)
  show ?thesis
    using codec create live expired by simp
qed

text \<open>
  Claim C1 as stated fails at the expiry: the session expires at second 1700086400, and a
  read 0.9 seconds after that instant still returns the record and leaves the cookie.
\<close>

theorem session_read_at_expiry_counterexample:
  "setSessionValues example_config Map.empty alice 1700000000000000000 ''expiry'' =
     Some (VInt64 1700086400) \<and>
   Unix 1700086400900000000 = 1700086400 \<and>
   CreateSessionCookie example_config
     (example_store (setSessionValues example_config Map.empty alice 1700000000000000000))
     (request_with None) alice 1700000000000000000 =
     (SetCookie (request_with None) ''session'' 86400, None) \<and>
   GetSessionCookie example_config
     (example_store (setSessionValues example_config Map.empty alice 1700000000000000000))
     (request_with (Some ''session'')) 1700086400900000000 =
     (request_with (Some ''session''), alice, None) \<and>
   alice \<noteq> emptySessionCookie"
proof -
  let ?store = "example_store (setSessionValues example_config Map.empty alice 1700000000000000000)"
  have "Get ?store (Request (request_with (Some ''session''))) =
      Inr (setSessionValues example_config Map.empty alice 1700000000000000000)"
    by (simp add: example_store_def request_with_def)
  then have "GetSessionCookie example_config ?store (request_with (Some ''session''))
      1700086400900000000 = (request_with (Some ''session''), alice, None)"
    by (simp add: GetSessionCookie_created)
       (simp add: alice_def example_config_def Seconds_of_def wrap64_def Second_def Add_def Unix_def)
  moreover have "setSessionValues example_config Map.empty alice 1700000000000000000 ''expiry'' =
      Some (VInt64 1700086400)"
    by (simp add: setSessionValues_def alice_def example_config_def Seconds_of_def wrap64_def
        Second_def Add_def Unix_def)
  moreover have "alice \<noteq> emptySessionCookie"
    by (simp add: alice_def emptySessionCookie_def)
  ultimately show ?thesis
    using example_create [of example_config alice 1700000000000000000]
    by (simp add: Unix_def Second_def example_config_def)
qed

text \<open>
  Claim C2, as the code has it. When the store cannot decode the request's cookie,
  \<^verbatim>\<open>GetSession\<close> writes the clearing cookie (empty value, \<open>MaxAge\<close> of \<open>- 1\<close>) to the response
  and reads the same request once more, which fails the same way; \<^verbatim>\<open>GetSessionCookie\<close>
  then returns the empty record together with the decoding error. A request whose cookie
  decodes is never answered with an error.
\<close>

theorem unreadable_session_returns_error:
  "(\<forall>err. Get store (Request c) = Inl err \<longrightarrow>
      GetSession store c = (SetCookie c [] (- 1), Inl err) \<and>
      GetSessionCookie cfg store c now = (SetCookie c [] (- 1), emptySessionCookie, Some err)) \<and>
   (\<forall>session. Get store (Request c) = Inr session \<longrightarrow>
      snd (snd (GetSessionCookie cfg store c now)) = None)"
proof -
  have "GetSessionCookie cfg store c now = (SetCookie c [] (- 1), emptySessionCookie, Some err)"
    if "Get store (Request c) = Inl err" for err
    using that by (simp add: GetSessionCookie_def GetSession_err)
  then show ?thesis
    using GetSession_err [of store c] GetSessionCookie_decoded_no_error [of store c _ cfg now]
    by blast
qed

text \<open>
  The theorem at a request with a cookie the store rejects, and at a request without
  cookie.
\<close>

theorem unreadable_session_returns_error_witness:
  "Get (example_store Map.empty) (Request (request_with (Some ''garbage''))) =
     Inl (Error ''securecookie: the value is not valid'') \<and>
   GetSessionCookie example_config (example_store Map.empty) (request_with (Some ''garbage''))
     1700000000000000000 =
     (SetCookie (request_with (Some ''garbage'')) [] (- 1), emptySessionCookie,
      Some (Error ''securecookie: the value is not valid'')) \<and>
   Get (example_store Map.empty) (Request (request_with None)) = Inr Map.empty \<and>
   snd (snd (GetSessionCookie example_config (example_store Map.empty) (request_with None)
     1700000000000000000)) = None"
proof -
  have undecodable: "Get (example_store Map.empty) (Request (request_with (Some ''garbage''))) =
      Inl (Error ''securecookie: the value is not valid'')"
    by (simp add: example_store_def request_with_def)
  have missing: "Get (example_store Map.empty) (Request (request_with None)) = Inr Map.empty"
    by (simp add: example_store_def request_with_def)
  show ?thesis
    using unreadable_session_returns_error
        [of "example_store Map.empty" "request_with (Some ''garbage'')" example_config
          1700000000000000000, THEN conjunct1, rule_format, OF undecodable]
      unreadable_session_returns_error
        [of "example_store Map.empty" "request_with None" example_config
          1700000000000000000, THEN conjunct2, rule_format, OF missing]
      undecodable missing
    by simp
qed

text \<open>
  Claim C2 as stated fails: for a cookie that cannot be decoded the caller gets an error,
  not only the empty record.
\<close>

theorem unreadable_session_error_counterexample:
  "snd (snd (GetSessionCookie example_config (example_store Map.empty)
     (request_with (Some ''garbage'')) 1700000000000000000)) =
     Some (Error ''securecookie: the value is not valid'')"
  by (simp add: GetSessionCookie_def GetSession_def Let_def example_store_def request_with_def
      SetCookie_def)

text \<open>
  Claim C7, as the code has it. With \<open>TotpPending\<close> the stored expiry is the second of the
  creation time plus 3600, whatever the configured session duration. Without it the
  stored expiry is the second of the creation time plus \<open>SessionExpiry\<close>, provided the
  duration in nanoseconds fits a \<open>Duration\<close>. The other six values are the record's
  fields, every other key of the session is left as it was, and a successful
  \<^verbatim>\<open>CreateSessionCookie\<close> writes the encoding of exactly these values.
\<close>

theorem session_expiry_and_fields:
  "(TotpPending data \<longrightarrow>
      setSessionValues cfg session data now ''expiry'' = Some (VInt64 (Unix now + 3600))) \<and>
   (\<not> TotpPending data \<and> - (2 ^ 63) \<le> SessionExpiry cfg * Second \<and>
    SessionExpiry cfg * Second < 2 ^ 63 \<longrightarrow>
      setSessionValues cfg session data now ''expiry'' =
        Some (VInt64 (Unix now + SessionExpiry cfg))) \<and>
   setSessionValues cfg session data now ''username'' = Some (VString (Username data)) \<and>
   setSessionValues cfg session data now ''name'' = Some (VString (Name data)) \<and>
   setSessionValues cfg session data now ''email'' = Some (VString (Email data)) \<and>
   setSessionValues cfg session data now ''provider'' = Some (VString (Provider data)) \<and>
   setSessionValues cfg session data now ''totpPending'' = Some (VBool (TotpPending data)) \<and>
   setSessionValues cfg session data now ''oauthGroups'' = Some (VString (OAuthGroups data)) \<and>
   (\<forall>key. key \<notin> {''username'', ''name'', ''email'', ''provider'', ''expiry'', ''totpPending'',
        ''oauthGroups''} \<longrightarrow>
      setSessionValues cfg session data now key = session key) \<and>
   (\<forall>store c c'. CreateSessionCookie cfg store c data now = (c', None) \<longrightarrow>
      (\<exists>decoded enc. Get store (Request c) = Inr decoded \<and>
         Save store (setSessionValues cfg decoded data now) = Inr enc \<and>
         c' = SetCookie c enc (SessionExpiry cfg)))"
proof -
  have totp: "Seconds_of 3600 = 3600 * Second"
    by (simp add: Seconds_of_def wrap64_def Second_def)
  have plain: "Seconds_of (SessionExpiry cfg) = SessionExpiry cfg * Second"
    if "- (2 ^ 63) \<le> SessionExpiry cfg * Second" "SessionExpiry cfg * Second < 2 ^ 63"
    unfolding Seconds_of_def using that by (rule wrap64_id)
  have expiry_totp: "setSessionValues cfg session data now ''expiry'' =
      Some (VInt64 (Unix now + 3600))" if "TotpPending data"
    using that totp Unix_Add_seconds [of now 3600]
    by (simp add: setSessionValues_def)
  have expiry_plain: "setSessionValues cfg session data now ''expiry'' =
      Some (VInt64 (Unix now + SessionExpiry cfg))"
    if "\<not> TotpPending data" "- (2 ^ 63) \<le> SessionExpiry cfg * Second"
      "SessionExpiry cfg * Second < 2 ^ 63"
    using that(1) plain [OF that(2,3)] Unix_Add_seconds [of now "SessionExpiry cfg"]
    by (simp add: setSessionValues_def)
  have fields: "setSessionValues cfg session data now ''username'' = Some (VString (Username data))"
    "setSessionValues cfg session data now ''name'' = Some (VString (Name data))"
    "setSessionValues cfg session data now ''email'' = Some (VString (Email data))"
    "setSessionValues cfg session data now ''provider'' = Some (VString (Provider data))"
    "setSessionValues cfg session data now ''totpPending'' = Some (VBool (TotpPending data))"
    "setSessionValues cfg session data now ''oauthGroups'' = Some (VString (OAuthGroups data))"
    by (simp_all add: setSessionValues_def Let_def)
  have others: "setSessionValues cfg session data now key = session key"
    if "key \<notin> {''username'', ''name'', ''email'', ''provider'', ''expiry'', ''totpPending'',
        ''oauthGroups''}" for key
    using that by (simp add: setSessionValues_def Let_def)
  have saved: "\<exists>decoded enc. Get store (Request c) = Inr decoded \<and>
         Save store (setSessionValues cfg decoded data now) = Inr enc \<and>
         c' = SetCookie c enc (SessionExpiry cfg)"
    if "CreateSessionCookie cfg store c data now = (c', None)" for store c c'
    using that by (rule CreateSessionCookie_ok)
  show ?thesis
    using expiry_totp expiry_plain fields others saved by blast
qed

text \<open>
  The theorem at the session for \<open>alice\<close>, with and without a pending second factor, under
  a session duration of one day.
\<close>

theorem session_expiry_and_fields_witness:
  "TotpPending (alice\<lparr>TotpPending := True\<rparr>) \<and>
   setSessionValues example_config Map.empty (alice\<lparr>TotpPending := True\<rparr>) 1700000000000000000
     ''expiry'' = Some (VInt64 1700003600) \<and>
   \<not> TotpPending alice \<and>
   SessionExpiry example_config * Second < 2 ^ 63 \<and>
   setSessionValues example_config Map.empty alice 1700000000000000000 ''expiry'' =
     Some (VInt64 1700086400) \<and>
   setSessionValues example_config Map.empty alice 1700000000000000000 ''username'' =
     Some (VString ''alice'') \<and>
   setSessionValues example_config Map.empty alice 1700000000000000000 ''csrf'' = None \<and>
   (\<exists>decoded enc.
      Get (example_store (setSessionValues example_config Map.empty alice 1700000000000000000))
        (Request (request_with None)) = Inr decoded \<and>
      Save (example_store (setSessionValues example_config Map.empty alice 1700000000000000000))
        (setSessionValues example_config decoded alice 1700000000000000000) = Inr enc \<and>
      SetCookie (request_with None) ''session'' 86400 =
        SetCookie (request_with None) enc (SessionExpiry example_config))"
proof -
  let ?store = "example_store (setSessionValues example_config Map.empty alice 1700000000000000000)"
  note totp = session_expiry_and_fields
    [of "alice\<lparr>TotpPending := True\<rparr>" example_config Map.empty 1700000000000000000]
  note plain = session_expiry_and_fields [of alice example_config Map.empty 1700000000000000000]
  have pending: "TotpPending (alice\<lparr>TotpPending := True\<rparr>)" by simp
  have not_pending: "\<not> TotpPending alice" by (simp add: alice_def)
  have range: "- (2 ^ 63) \<le> SessionExpiry example_config * Second"
    "SessionExpiry example_config * Second < 2 ^ 63"
    by (simp_all add: example_config_def Second_def)
  have a: "setSessionValues example_config Map.empty (alice\<lparr>TotpPending := True\<rparr>)
      1700000000000000000 ''expiry'' = Some (VInt64 1700003600)"
    using totp [THEN conjunct1, rule_format, OF pending] by (simp add: Unix_def Second_def)
  have b: "setSessionValues example_config Map.empty alice 1700000000000000000 ''expiry'' =
      Some (VInt64 1700086400)"
    using plain [THEN conjunct2, THEN conjunct1] not_pending range
    by (simp add: Unix_def Second_def example_config_def)
  have c: "setSessionValues example_config Map.empty alice 1700000000000000000 ''username'' =
      Some (VString ''alice'')"
    using plain [THEN conjunct2, THEN conjunct2, THEN conjunct1] by (simp add: alice_def)
  have d: "setSessionValues example_config Map.empty alice 1700000000000000000 ''csrf'' = None"
    using plain [THEN conjunct2, THEN conjunct2, THEN conjunct2, THEN conjunct2, THEN conjunct2,
        THEN conjunct2, THEN conjunct2, THEN conjunct2, THEN conjunct1, rule_format, of "''csrf''"]
    by simp
  have create: "CreateSessionCookie example_config ?store (request_with None) alice
      1700000000000000000 = (SetCookie (request_with None) ''session'' 86400, None)"
    using example_create [of example_config alice 1700000000000000000]
    by (simp add: example_config_def)
  have e: "\<exists>decoded enc. Get ?store (Request (request_with None)) = Inr decoded \<and>
      Save ?store (setSessionValues example_config decoded alice 1700000000000000000) = Inr enc \<and>
      SetCookie (request_with None) ''session'' 86400 =
        SetCookie (request_with None) enc (SessionExpiry example_config)"
    using plain [THEN conjunct2, THEN conjunct2, THEN conjunct2, THEN conjunct2, THEN conjunct2,
        THEN conjunct2, THEN conjunct2, THEN conjunct2, THEN conjunct2, rule_format, OF create]
    by simp
  show ?thesis
    using pending a not_pending range(2) b c d e by simp
qed

text \<open>
  Claim C7 as stated fails for a session duration whose nanoseconds do not fit a
  \<open>Duration\<close>: with 9223372037 seconds the product with \<^verbatim>\<open>time.Second\<close> wraps and the stored
  expiry lies in the past, not at the creation time plus the duration.
\<close>

theorem session_expiry_overflow_counterexample:
  "\<not> TotpPending alice \<and>
   setSessionValues \<lparr>SessionExpiry = 9223372037, LoginTimeout = 60, LoginMaxRetries = 3\<rparr>
     Map.empty alice 1700000000000000000 ''expiry'' = Some (VInt64 (- 7523372037)) \<and>
   Unix 1700000000000000000 + 9223372037 = 10923372037"
  by (simp add: setSessionValues_def alice_def Seconds_of_def wrap64_def Second_def Add_def Unix_def)

section \<open>Claims about the rate limiter\<close>

text \<open>
  Claim C3, as the code has it. Rate limiting is enabled, the lockout window in
  nanoseconds fits a \<open>Duration\<close>, and the identifier's counter is not negative and has
  room for the run. After \<open>LoginMaxRetries\<close> consecutive failed attempts the identifier's
  entry has \<open>LockedUntil\<close> equal to the last clock reading of the run plus the window.
  Every check whose first clock reading is before that instant reports locked. When the
  check's second reading lies between the last failure and that instant, the remaining
  seconds are the time from the second reading to that instant in whole seconds, rounded
  down, or one more; they are the whole seconds rounded down whenever less than \<open>2 ^ 24\<close>
  seconds remain; they are never negative, and they are positive exactly when at least
  one full second remains. A check at the instant of the last failure reports locked with
  the whole window remaining. A successful attempt, from any table, sets the counter to 0
  and clears \<open>LockedUntil\<close>, so a check at any reading from the zero instant on reports
  open.
\<close>

theorem lockout_after_max_retries:
  assumes "0 < LoginMaxRetries cfg" and "0 < LoginTimeout cfg"
    and window: "LoginTimeout cfg * Second < 2 ^ 63"
    and count: "0 \<le> failed_count attempts identifier"
      "failed_count attempts identifier + LoginMaxRetries cfg < 2 ^ 63"
    and run: "int (length ts) = LoginMaxRetries cfg"
  shows "(\<exists>a. record_failures cfg attempts identifier ts identifier = Some a \<and>
            LockedUntil a = snd (last ts) + LoginTimeout cfg * Second) \<and>
     (\<forall>now now'. now < snd (last ts) + LoginTimeout cfg * Second \<longrightarrow>
         fst (IsAccountLocked cfg (record_failures cfg attempts identifier ts) identifier
                now now')) \<and>
     (\<forall>now now'. snd (last ts) \<le> now' \<and>
         now < snd (last ts) + LoginTimeout cfg * Second \<and>
         now' \<le> snd (last ts) + LoginTimeout cfg * Second \<longrightarrow>
         (snd (last ts) + LoginTimeout cfg * Second - now') div Second \<le>
           snd (IsAccountLocked cfg (record_failures cfg attempts identifier ts) identifier
                  now now') \<and>
         snd (IsAccountLocked cfg (record_failures cfg attempts identifier ts) identifier
                now now') \<le>
           (snd (last ts) + LoginTimeout cfg * Second - now') div Second + 1 \<and>
         (snd (last ts) + LoginTimeout cfg * Second - now' < 2 ^ 24 * Second \<longrightarrow>
            snd (IsAccountLocked cfg (record_failures cfg attempts identifier ts) identifier
                   now now') =
              (snd (last ts) + LoginTimeout cfg * Second - now') div Second) \<and>
         0 \<le> snd (IsAccountLocked cfg (record_failures cfg attempts identifier ts) identifier
                    now now') \<and>
         (0 < snd (IsAccountLocked cfg (record_failures cfg attempts identifier ts) identifier
                    now now') \<longleftrightarrow>
            Second \<le> snd (last ts) + LoginTimeout cfg * Second - now')) \<and>
     IsAccountLocked cfg (record_failures cfg attempts identifier ts) identifier
       (snd (last ts)) (snd (last ts)) = (True, LoginTimeout cfg) \<and>
     (\<forall>table t t' now now'. zeroTime \<le> now \<longrightarrow>
         failed_count (RecordLoginAttempt cfg table identifier True t t') identifier = 0 \<and>
         IsAccountLocked cfg (RecordLoginAttempt cfg table identifier True t t') identifier now now' =
           (False, 0))"
proof -
  let ?until = "snd (last ts) + LoginTimeout cfg * Second"
  let ?after = "record_failures cfg attempts identifier ts"
  have nonempty: "ts \<noteq> []"
    using run assms(1) by auto
  have "\<exists>a. ?after identifier = Some a \<and>
      LockedUntil a = snd (last ts) + Seconds_of (LoginTimeout cfg)"
    using count run nonempty by (intro record_failures_locks assms) auto
  then obtain a where a: "?after identifier = Some a" "LockedUntil a = ?until"
    using Seconds_of_id [OF assms(2) window] by auto
  have check: "IsAccountLocked cfg ?after identifier now now' =
      (True, float64_to_int (Seconds (Until ?until now')))" if "now < ?until" for now now'
    using IsAccountLocked_locked [of cfg ?after "identifier" a now now', OF assms(1,2) a(1)]
      that a(2)
    by simp
  have locked: "fst (IsAccountLocked cfg ?after identifier now now')"
    if "now < ?until" for now now'
    using check [OF that] by simp
  have remaining: "(?until - now') div Second \<le> snd (IsAccountLocked cfg ?after identifier now now') \<and>
      snd (IsAccountLocked cfg ?after identifier now now') \<le> (?until - now') div Second + 1 \<and>
      (?until - now' < 2 ^ 24 * Second \<longrightarrow>
         snd (IsAccountLocked cfg ?after identifier now now') = (?until - now') div Second) \<and>
      0 \<le> snd (IsAccountLocked cfg ?after identifier now now') \<and>
      (0 < snd (IsAccountLocked cfg ?after identifier now now') \<longleftrightarrow> Second \<le> ?until - now')"
    if "snd (last ts) \<le> now'" "now < ?until" "now' \<le> ?until" for now now'
  proof -
    define d where "d = ?until - now'"
    define r where "r = float64_to_int (Seconds (Until ?until now'))"
    have small: "?until - now' < 2 ^ 63"
      using that(1) window by simp
    note bounds = remaining_seconds [OF that(3) small, folded d_def r_def]
    have d: "0 \<le> d"
      using that(3) by (simp add: d_def)
    note whole = whole_seconds [OF d]
    note r = bounds [THEN conjunct1] bounds [THEN conjunct2, THEN conjunct1]
      bounds [THEN conjunct2, THEN conjunct2, THEN conjunct1, rule_format]
    have nonneg: "0 \<le> r"
      using r(1) whole by linarith
    have positive: "0 < r \<longleftrightarrow> Second \<le> d"
    proof
      assume "0 < r"
      show "Second \<le> d"
      proof (rule ccontr)
        assume "\<not> Second \<le> d"
        then have less: "d < Second" by simp
        then have "d < 2 ^ 24 * Second" by (simp add: Second_def)
        then have "r = d div Second" by (rule r(3))
        moreover have "d div Second = 0"
          using d less by simp
        ultimately show False using \<open>0 < r\<close> by simp
      qed
    next
      assume "Second \<le> d"
      then have "0 < d div Second" using whole by blast
      then show "0 < r" using r(1) by linarith
    qed
    have "snd (IsAccountLocked cfg ?after identifier now now') = r"
      using check [OF that(2), of now'] by (simp add: r_def)
    then show ?thesis
      using r nonneg positive unfolding d_def by simp
  qed
  have pos: "0 < LoginTimeout cfg * Second"
    using assms(2) by (simp add: Second_def)
  have "float64_to_int (Seconds (Until ?until (snd (last ts)))) =
      (?until - snd (last ts)) div Second"
    using remaining_seconds [of "snd (last ts)" ?until, THEN conjunct2, THEN conjunct2,
        THEN conjunct2] window pos
    by simp
  then have immediate: "IsAccountLocked cfg ?after identifier (snd (last ts)) (snd (last ts)) =
      (True, LoginTimeout cfg)"
    using check [of "snd (last ts)" "snd (last ts)"] pos by (simp add: Second_def)
  have reset: "failed_count (RecordLoginAttempt cfg table identifier True t t') identifier = 0 \<and>
      IsAccountLocked cfg (RecordLoginAttempt cfg table identifier True t t') identifier now now' =
        (False, 0)"
    if "zeroTime \<le> now" for table t t' now now'
  proof -
    let ?reset = "RecordLoginAttempt cfg table identifier True t t'"
    obtain b where b: "?reset identifier = Some b" "FailedAttempts b = 0" "LockedUntil b = zeroTime"
      using RecordLoginAttempt_success [OF assms(1,2), of table "identifier" t t'] by simp
    then show ?thesis
      using that IsAccountLocked_open [of ?reset "identifier" b now cfg now']
      by (simp add: failed_count_def)
  qed
  show ?thesis
    using a locked remaining immediate reset by blast
qed

text \<open>
  The theorem at three failures for \<open>alice\<close> with a window of 60 seconds: locked with 60
  seconds left at the last failure, with 31 left some 28 seconds later, and open after a
  successful attempt.
\<close>

theorem lockout_after_max_retries_witness:
  "0 < LoginMaxRetries \<lparr>SessionExpiry = 3600, LoginTimeout = 60, LoginMaxRetries = 3\<rparr> \<and>
   0 < LoginTimeout \<lparr>SessionExpiry = 3600, LoginTimeout = 60, LoginMaxRetries = 3\<rparr> \<and>
   60 * Second < 2 ^ 63 \<and>
   failed_count Map.empty ''alice'' = 0 \<and>
   IsAccountLocked \<lparr>SessionExpiry = 3600, LoginTimeout = 60, LoginMaxRetries = 3\<rparr>
     (record_failures \<lparr>SessionExpiry = 3600, LoginTimeout = 60, LoginMaxRetries = 3\<rparr> Map.empty ''alice''
        [(1700000000000000000, 1700000000000000000),
         (1700000001000000000, 1700000001000000000),
         (1700000002000000000, 1700000002000000001)])
     ''alice'' 1700000002000000001 1700000002000000001 = (True, 60) \<and>
   IsAccountLocked \<lparr>SessionExpiry = 3600, LoginTimeout = 60, LoginMaxRetries = 3\<rparr>
     (record_failures \<lparr>SessionExpiry = 3600, LoginTimeout = 60, LoginMaxRetries = 3\<rparr> Map.empty ''alice''
        [(1700000000000000000, 1700000000000000000),
         (1700000001000000000, 1700000001000000000),
         (1700000002000000000, 1700000002000000001)])
     ''alice'' 1700000030000000000 1700000030000000007 = (True, 31) \<and>
   IsAccountLocked \<lparr>SessionExpiry = 3600, LoginTimeout = 60, LoginMaxRetries = 3\<rparr>
     (RecordLoginAttempt \<lparr>SessionExpiry = 3600, LoginTimeout = 60, LoginMaxRetries = 3\<rparr>
        (record_failures \<lparr>SessionExpiry = 3600, LoginTimeout = 60, LoginMaxRetries = 3\<rparr> Map.empty ''alice''
          [(1700000000000000000, 1700000000000000000),
           (1700000001000000000, 1700000001000000000),
           (1700000002000000000, 1700000002000000001)])
        ''alice'' True 1700000003000000000 1700000003000000000)
     ''alice'' 1700000003000000001 1700000003000000002 = (False, 0)"
proof -
  let ?cfg = "\<lparr>SessionExpiry = 3600, LoginTimeout = 60, LoginMaxRetries = 3\<rparr>"
  let ?ts = "[(1700000000000000000, 1700000000000000000),
         (1700000001000000000, 1700000001000000000),
         (1700000002000000000, 1700000002000000001)] :: (Time \<times> Time) list"
  let ?after = "record_failures ?cfg Map.empty ''alice'' ?ts"
  have h1: "0 < LoginMaxRetries ?cfg" and h2: "0 < LoginTimeout ?cfg" by simp_all
  have h3: "LoginTimeout ?cfg * Second < 2 ^ 63" by (simp add: Second_def)
  have h4: "0 \<le> failed_count Map.empty ''alice''"
    and h5: "failed_count Map.empty ''alice'' + LoginMaxRetries ?cfg < 2 ^ 63"
    by (simp_all add: failed_count_def)
  have h6: "int (length ?ts) = LoginMaxRetries ?cfg" by simp
  note th = lockout_after_max_retries [OF h1 h2 h3 h4 h5 h6]
  have a: "IsAccountLocked ?cfg ?after ''alice'' 1700000002000000001 1700000002000000001 =
      (True, 60)"
    using th [THEN conjunct2, THEN conjunct2, THEN conjunct2, THEN conjunct1] by simp
  have "fst (IsAccountLocked ?cfg ?after ''alice'' 1700000030000000000 1700000030000000007)"
    using th [THEN conjunct2, THEN conjunct1, rule_format,
        of 1700000030000000000 1700000030000000007]
    by (simp add: Second_def)
  moreover have "snd (IsAccountLocked ?cfg ?after ''alice'' 1700000030000000000
      1700000030000000007) = 31"
    using th [THEN conjunct2, THEN conjunct2, THEN conjunct1, rule_format,
        of 1700000030000000007 1700000030000000000]
    by (simp add: Second_def)
  ultimately have b: "IsAccountLocked ?cfg ?after ''alice'' 1700000030000000000
      1700000030000000007 = (True, 31)"
    by (simp add: prod_eq_iff)
  have c: "IsAccountLocked ?cfg
      (RecordLoginAttempt ?cfg ?after ''alice'' True 1700000003000000000 1700000003000000000)
      ''alice'' 1700000003000000001 1700000003000000002 = (False, 0)"
    using th [THEN conjunct2, THEN conjunct2, THEN conjunct2, THEN conjunct2, rule_format,
        of 1700000003000000001 ?after
          1700000003000000000 1700000003000000000 1700000003000000002]
    by (simp add: zeroTime_def)
  show ?thesis
    using a b c by (simp add: Second_def failed_count_def)
qed

text \<open>
  Claim C3 as stated fails inside the last second of the window: half a second before
  \<open>LockedUntil\<close> the check reports locked with 0 remaining seconds, not a positive number.
\<close>

theorem lockout_last_second_counterexample:
  "IsAccountLocked \<lparr>SessionExpiry = 3600, LoginTimeout = 60, LoginMaxRetries = 3\<rparr>
     (record_failures \<lparr>SessionExpiry = 3600, LoginTimeout = 60, LoginMaxRetries = 3\<rparr> Map.empty ''alice''
        [(1700000000000000000, 1700000000000000000),
         (1700000001000000000, 1700000001000000000),
         (1700000002000000000, 1700000002000000000)])
     ''alice'' 1700000061500000000 1700000061500000000 = (True, 0)"
proof -
  let ?after = "record_failures \<lparr>SessionExpiry = 3600, LoginTimeout = 60, LoginMaxRetries = 3\<rparr> Map.empty ''alice''
        [(1700000000000000000, 1700000000000000000),
         (1700000001000000000, 1700000001000000000),
         (1700000002000000000, 1700000002000000000)]"
  have entry: "?after ''alice'' =
      Some \<lparr>FailedAttempts = 3, LastAttempt = 1700000002000000000,
            LockedUntil = 1700000062000000000\<rparr>"
    by (simp add: RecordLoginAttempt_def Let_def newLoginAttempt_def wrap64_def Seconds_of_def
        Second_def Add_def)
  have "float64_to_int (Seconds (Until 1700000062000000000 1700000061500000000)) =
      (1700000062000000000 - 1700000061500000000) div Second"
    using remaining_seconds [of 1700000061500000000 1700000062000000000,
        THEN conjunct2, THEN conjunct2, THEN conjunct1]
    by (simp add: Second_def)
  then have "float64_to_int (Seconds (Until 1700000062000000000 1700000061500000000)) = 0"
    by (simp add: Second_def)
  then show ?thesis
    using IsAccountLocked_locked [of "\<lparr>SessionExpiry = 3600, LoginTimeout = 60, LoginMaxRetries = 3\<rparr>" ?after "''alice''" _ 1700000061500000000
        1700000061500000000, OF _ _ entry]
    by simp
qed

text \<open>
  Claim C9, as the code has it. For an identifier without an entry, a successful attempt
  does create an entry when rate limiting is enabled: the entry is fetched or created
  before the outcome is looked at, and after the successful attempt it holds a counter
  of 0, the time of the attempt and a cleared \<open>LockedUntil\<close>. With rate limiting disabled
  no entry is created.
\<close>

theorem record_created_on_first_attempt:
  assumes "attempts identifier = None"
  shows "(0 < LoginMaxRetries cfg \<and> 0 < LoginTimeout cfg \<longrightarrow>
       RecordLoginAttempt cfg attempts identifier True now now' identifier =
         Some \<lparr>FailedAttempts = 0, LastAttempt = now, LockedUntil = zeroTime\<rparr>) \<and>
     (LoginMaxRetries cfg \<le> 0 \<or> LoginTimeout cfg \<le> 0 \<longrightarrow>
       RecordLoginAttempt cfg attempts identifier True now now' identifier = None)"
  using assms by (simp add: RecordLoginAttempt_def Let_def newLoginAttempt_def)

text \<open>The theorem at the empty table, with rate limiting enabled and disabled.\<close>

theorem record_created_on_first_attempt_witness:
  "(Map.empty :: LoginAttempts) ''alice'' = None \<and>
   RecordLoginAttempt \<lparr>SessionExpiry = 3600, LoginTimeout = 60, LoginMaxRetries = 3\<rparr>
     Map.empty ''alice'' True 1700000000000000000 1700000000000000000 ''alice'' =
     Some \<lparr>FailedAttempts = 0, LastAttempt = 1700000000000000000, LockedUntil = zeroTime\<rparr> \<and>
   RecordLoginAttempt \<lparr>SessionExpiry = 3600, LoginTimeout = 0, LoginMaxRetries = 3\<rparr>
     Map.empty ''alice'' True 1700000000000000000 1700000000000000000 ''alice'' = None"
  using record_created_on_first_attempt
      [of Map.empty "''alice''" "\<lparr>SessionExpiry = 3600, LoginTimeout = 60, LoginMaxRetries = 3\<rparr>"
        1700000000000000000 1700000000000000000]
    record_created_on_first_attempt
      [of Map.empty "''alice''" "\<lparr>SessionExpiry = 3600, LoginTimeout = 0, LoginMaxRetries = 3\<rparr>"
        1700000000000000000 1700000000000000000]
  by simp

text \<open>
  Claim C9 as stated fails: a successful attempt for an identifier without an entry leaves
  an entry in the table.
\<close>

theorem success_creates_record_counterexample:
  "(Map.empty :: LoginAttempts) ''alice'' = None \<and>
   RecordLoginAttempt \<lparr>SessionExpiry = 3600, LoginTimeout = 60, LoginMaxRetries = 3\<rparr>
     Map.empty ''alice'' True 1700000000000000000 1700000000000000000 ''alice'' \<noteq> None"
  by (simp add: RecordLoginAttempt_def Let_def)

text \<open>
  Claim C10, as the code has it. Rate limiting is enabled, the lockout window in
  nanoseconds fits a \<open>Duration\<close>, the identifier's counter has reached \<open>LoginMaxRetries\<close>
  (and is below the largest \<open>int\<close>), and its \<open>LockedUntil\<close> has passed, so the check reports
  open. One more failed attempt raises the counter by one (it is not reset by the lockout
  having elapsed) and sets \<open>LockedUntil\<close> to the clock reading plus the window, so the
  identifier is locked again at once: a check at that reading reports locked with the
  whole window remaining, and every check before the new \<open>LockedUntil\<close> reports locked. A
  successful attempt is what sets the counter to 0.
\<close>

theorem relock_after_expired_lockout:
  assumes "0 < LoginMaxRetries cfg" and "0 < LoginTimeout cfg"
    and window: "LoginTimeout cfg * Second < 2 ^ 63"
    and entry: "attempts identifier = Some a"
    and reached: "LoginMaxRetries cfg \<le> FailedAttempts a"
    and count: "FailedAttempts a < 2 ^ 63 - 1"
    and passed: "LockedUntil a \<le> t0"
  shows "IsAccountLocked cfg attempts identifier t0 t0' = (False, 0) \<and>
     RecordLoginAttempt cfg attempts identifier False now now' identifier =
       Some (a\<lparr>LastAttempt := now, FailedAttempts := FailedAttempts a + 1,
               LockedUntil := now' + LoginTimeout cfg * Second\<rparr>) \<and>
     IsAccountLocked cfg (RecordLoginAttempt cfg attempts identifier False now now') identifier
       now' now' = (True, LoginTimeout cfg) \<and>
     (\<forall>t t'. t < now' + LoginTimeout cfg * Second \<longrightarrow>
        fst (IsAccountLocked cfg (RecordLoginAttempt cfg attempts identifier False now now')
               identifier t t')) \<and>
     RecordLoginAttempt cfg attempts identifier True now now' identifier =
       Some (a\<lparr>LastAttempt := now, FailedAttempts := 0, LockedUntil := zeroTime\<rparr>)"
proof -
  let ?until = "now' + LoginTimeout cfg * Second"
  let ?after = "RecordLoginAttempt cfg attempts identifier False now now'"
  have c: "failed_count attempts identifier = FailedAttempts a"
    using entry by (simp add: failed_count_def)
  have nonneg: "0 \<le> failed_count attempts identifier"
    using c reached assms(1) by simp
  have small: "failed_count attempts identifier < 2 ^ 63 - 1"
    using c count by simp
  have after: "?after identifier =
      Some (a\<lparr>LastAttempt := now, FailedAttempts := FailedAttempts a + 1, LockedUntil := ?until\<rparr>)"
    using RecordLoginAttempt_failure [OF assms(1,2) nonneg small, of now now']
      Seconds_of_id [OF assms(2) window] entry c reached
    by simp
  have locked: "IsAccountLocked cfg ?after identifier t t' =
      (True, float64_to_int (Seconds (Until ?until t')))" if "t < ?until" for t t'
    using IsAccountLocked_locked [of cfg ?after "identifier" _ t t', OF assms(1,2) after] that
    by simp
  have pos: "0 < LoginTimeout cfg * Second"
    using assms(2) by (simp add: Second_def)
  have "float64_to_int (Seconds (Until ?until now')) = (?until - now') div Second"
    using remaining_seconds [of now' ?until, THEN conjunct2, THEN conjunct2, THEN conjunct2]
      window pos
    by simp
  then have immediate: "IsAccountLocked cfg ?after identifier now' now' = (True, LoginTimeout cfg)"
    using locked [of now' now'] pos by (simp add: Second_def)
  have reset: "RecordLoginAttempt cfg attempts identifier True now now' identifier =
      Some (a\<lparr>LastAttempt := now, FailedAttempts := 0, LockedUntil := zeroTime\<rparr>)"
    using RecordLoginAttempt_success [OF assms(1,2), of attempts "identifier" now now'] entry
    by simp
  show ?thesis
    using IsAccountLocked_open [of attempts "identifier" a t0 cfg t0', OF entry passed]
      after immediate locked reset
    by simp
qed

text \<open>
  The theorem at an entry with three failures whose lockout ended: the fourth failure
  locks again for 60 seconds.
\<close>

theorem relock_after_expired_lockout_witness:
  "LoginTimeout \<lparr>SessionExpiry = 3600, LoginTimeout = 60, LoginMaxRetries = 3\<rparr> * Second < 2 ^ 63 \<and>
   IsAccountLocked \<lparr>SessionExpiry = 3600, LoginTimeout = 60, LoginMaxRetries = 3\<rparr>
     [''alice'' \<mapsto> \<lparr>FailedAttempts = 3, LastAttempt = 1700000002000000000,
                      LockedUntil = 1700000062000000000\<rparr>]
     ''alice'' 1700000062000000000 1700000062000000000 = (False, 0) \<and>
   RecordLoginAttempt \<lparr>SessionExpiry = 3600, LoginTimeout = 60, LoginMaxRetries = 3\<rparr>
     [''alice'' \<mapsto> \<lparr>FailedAttempts = 3, LastAttempt = 1700000002000000000,
                      LockedUntil = 1700000062000000000\<rparr>]
     ''alice'' False 1700000100000000000 1700000100000000000 ''alice'' =
     Some \<lparr>FailedAttempts = 4, LastAttempt = 1700000100000000000,
           LockedUntil = 1700000160000000000\<rparr> \<and>
   IsAccountLocked \<lparr>SessionExpiry = 3600, LoginTimeout = 60, LoginMaxRetries = 3\<rparr>
     (RecordLoginAttempt \<lparr>SessionExpiry = 3600, LoginTimeout = 60, LoginMaxRetries = 3\<rparr>
        [''alice'' \<mapsto> \<lparr>FailedAttempts = 3, LastAttempt = 1700000002000000000,
                         LockedUntil = 1700000062000000000\<rparr>]
        ''alice'' False 1700000100000000000 1700000100000000000)
     ''alice'' 1700000100000000000 1700000100000000000 = (True, 60)"
proof -
  let ?cfg = "\<lparr>SessionExpiry = 3600, LoginTimeout = 60, LoginMaxRetries = 3\<rparr>"
  let ?a = "\<lparr>FailedAttempts = 3, LastAttempt = 1700000002000000000,
             LockedUntil = 1700000062000000000\<rparr>"
  have h1: "0 < LoginMaxRetries ?cfg" and h2: "0 < LoginTimeout ?cfg" by simp_all
  have h3: "LoginTimeout ?cfg * Second < 2 ^ 63" by (simp add: Second_def)
  have h4: "[''alice'' \<mapsto> ?a] ''alice'' = Some ?a" by simp
  have h5: "LoginMaxRetries ?cfg \<le> FailedAttempts ?a" by simp
  have h6: "FailedAttempts ?a < 2 ^ 63 - 1" by simp
  have h7: "LockedUntil ?a \<le> 1700000062000000000" by simp
  show ?thesis
    using relock_after_expired_lockout [of ?cfg "[''alice'' \<mapsto> ?a]" "''alice''" ?a
        1700000062000000000 1700000062000000000 1700000100000000000 1700000100000000000,
        OF h1 h2 h3 h4 h5 h6 h7] h3
    by (simp add: Second_def)
qed

text \<open>
  Claim C10 as stated fails for a lockout window whose nanoseconds do not fit a
  \<open>Duration\<close>. With a window of 9223372037 seconds the product with \<^verbatim>\<open>time.Second\<close> wraps
  to a negative duration: the further failed attempt sets \<open>LockedUntil\<close> into the past, not
  to the clock reading plus the window, and the identifier stays open.
\<close>

theorem relock_window_overflow_counterexample:
  "IsAccountLocked \<lparr>SessionExpiry = 3600, LoginTimeout = 9223372037, LoginMaxRetries = 3\<rparr>
     [''alice'' \<mapsto> \<lparr>FailedAttempts = 3, LastAttempt = 1700000002000000000,
                      LockedUntil = 1700000002000000000\<rparr>]
     ''alice'' 1700000100000000000 1700000100000000000 = (False, 0) \<and>
   RecordLoginAttempt \<lparr>SessionExpiry = 3600, LoginTimeout = 9223372037, LoginMaxRetries = 3\<rparr>
     [''alice'' \<mapsto> \<lparr>FailedAttempts = 3, LastAttempt = 1700000002000000000,
                      LockedUntil = 1700000002000000000\<rparr>]
     ''alice'' False 1700000100000000000 1700000100000000000 ''alice'' =
     Some \<lparr>FailedAttempts = 4, LastAttempt = 1700000100000000000,
           LockedUntil = 1700000100000000000 - 9223372036709551616\<rparr> \<and>
   IsAccountLocked \<lparr>SessionExpiry = 3600, LoginTimeout = 9223372037, LoginMaxRetries = 3\<rparr>
     (RecordLoginAttempt \<lparr>SessionExpiry = 3600, LoginTimeout = 9223372037, LoginMaxRetries = 3\<rparr>
        [''alice'' \<mapsto> \<lparr>FailedAttempts = 3, LastAttempt = 1700000002000000000,
                         LockedUntil = 1700000002000000000\<rparr>]
        ''alice'' False 1700000100000000000 1700000100000000000)
     ''alice'' 1700000100000000000 1700000100000000000 = (False, 0)"
  by (simp add: IsAccountLocked_def RecordLoginAttempt_def Let_def
      wrap64_def Seconds_of_def Second_def Add_def After_def)

section \<open>Claims about credential verification\<close>

text \<open>
  Claim C4. For a directory identity, with a directory client configured: when the bind
  with the identity's name and the supplied password fails, \<^verbatim>\<open>VerifyUser\<close> returns false;
  when that bind succeeds and the bind with the service account's credentials that
  follows fails, it returns false as well; it returns true only when both binds succeed.
  Without a directory client it returns false.
\<close>

theorem ldap_rebind_failure_fails_closed:
  assumes "Type search = ''ldap''"
  shows "(\<forall>err conn. Bind l (Conn l) (UserSearch.Username search) password = (Some err, conn) \<longrightarrow>
       VerifyUser compare users (Some l) search password = (False, Some (l\<lparr>Conn := conn\<rparr>))) \<and>
     (\<forall>conn err conn'.
        Bind l (Conn l) (UserSearch.Username search) password = (None, conn) \<and>
        Bind l conn (BindDN l) (BindPassword l) = (Some err, conn') \<longrightarrow>
        VerifyUser compare users (Some l) search password = (False, Some (l\<lparr>Conn := conn'\<rparr>))) \<and>
     (\<forall>conn conn'.
        Bind l (Conn l) (UserSearch.Username search) password = (None, conn) \<and>
        Bind l conn (BindDN l) (BindPassword l) = (None, conn') \<longrightarrow>
        VerifyUser compare users (Some l) search password = (True, Some (l\<lparr>Conn := conn'\<rparr>))) \<and>
     \<not> fst (VerifyUser compare users None search password)"
  using assms by (simp add: VerifyUser_def LDAP_Bind_def)

text \<open>
  The theorem at a directory that accepts \<open>alice\<close> and refuses the service account: the
  right password is refused because the second bind fails, a wrong one because the first
  fails.
\<close>

theorem ldap_rebind_failure_fails_closed_witness:
  "Type \<lparr>UserSearch.Username = ''uid=alice,dc=example'', Type = ''ldap''\<rparr> = ''ldap'' \<and>
   Bind example_ldap (Conn example_ldap) ''uid=alice,dc=example'' ''secret'' = (None, 1) \<and>
   Bind example_ldap 1 (BindDN example_ldap) (BindPassword example_ldap) =
     (Some (Error ''LDAP Result Code 49: Invalid Credentials''), 2) \<and>
   VerifyUser (\<lambda>hash password. False) []  (Some example_ldap)
     \<lparr>UserSearch.Username = ''uid=alice,dc=example'', Type = ''ldap''\<rparr> ''secret'' =
     (False, Some (example_ldap\<lparr>Conn := 2\<rparr>)) \<and>
   VerifyUser (\<lambda>hash password. False) [] (Some example_ldap)
     \<lparr>UserSearch.Username = ''uid=alice,dc=example'', Type = ''ldap''\<rparr> ''guess'' =
     (False, Some (example_ldap\<lparr>Conn := 1\<rparr>))"
proof -
  let ?search = "\<lparr>UserSearch.Username = ''uid=alice,dc=example'', Type = ''ldap''\<rparr>"
  have t: "Type ?search = ''ldap''" by simp
  have user: "Bind example_ldap (Conn example_ldap) ''uid=alice,dc=example'' ''secret'' = (None, 1)"
    and service: "Bind example_ldap 1 (BindDN example_ldap) (BindPassword example_ldap) =
      (Some (Error ''LDAP Result Code 49: Invalid Credentials''), 2)"
    and guess: "Bind example_ldap (Conn example_ldap) ''uid=alice,dc=example'' ''guess'' =
      (Some (Error ''LDAP Result Code 49: Invalid Credentials''), 1)"
    by (simp_all add: example_ldap_def)
  note th = ldap_rebind_failure_fails_closed [OF t, of example_ldap _ "\<lambda>hash password. False" "[]"]
  have a: "VerifyUser (\<lambda>hash password. False) [] (Some example_ldap) ?search ''secret'' =
      (False, Some (example_ldap\<lparr>Conn := 2\<rparr>))"
    using th [of "''secret''", THEN conjunct2, THEN conjunct1, rule_format,
        of 1 "Error ''LDAP Result Code 49: Invalid Credentials''" 2] user service
    by simp
  have b: "VerifyUser (\<lambda>hash password. False) [] (Some example_ldap) ?search ''guess'' =
      (False, Some (example_ldap\<lparr>Conn := 1\<rparr>))"
    using th [of "''guess''", THEN conjunct1, rule_format,
        of "Error ''LDAP Result Code 49: Invalid Credentials''" 1] guess
    by simp
  show ?thesis
    using a b user service by simp
qed

section \<open>Claims about the access policy\<close>

text \<open>
  Claim C5. \<^verbatim>\<open>CheckIP\<close> allows exactly when no entry of the block list matches the client's
  address and the allow list is empty or has an entry that matches. So a match in the
  block list denies, whatever the allow list holds; an entry that does not parse, in
  either list, is passed over and the scan goes on as if the entry were not there; with no
  block entry matching and a non-empty allow list the address is allowed exactly when an
  allow entry matches; with no block entry matching and an empty allow list it is
  allowed.
\<close>

theorem CheckIP_block_then_allow:
  "(CheckIP filterIP c labels \<longleftrightarrow>
      \<not> (\<exists>blocked \<in> set (Block (IP labels)). filterIP blocked (ClientIP c) = Inr True) \<and>
      (Allow (IP labels) = [] \<or>
       (\<exists>allowed \<in> set (Allow (IP labels)). filterIP allowed (ClientIP c) = Inr True))) \<and>
   ((\<exists>blocked \<in> set (Block (IP labels)). filterIP blocked (ClientIP c) = Inr True) \<longrightarrow>
      \<not> CheckIP filterIP c labels) \<and>
   (\<forall>before entry err after.
      filterIP entry (ClientIP c) = Inl err \<longrightarrow>
      CheckIP_block filterIP (ClientIP c) (before @ entry # after) =
        CheckIP_block filterIP (ClientIP c) (before @ after) \<and>
      CheckIP_allow filterIP (ClientIP c) (before @ entry # after) =
        CheckIP_allow filterIP (ClientIP c) (before @ after)) \<and>
   (\<not> (\<exists>blocked \<in> set (Block (IP labels)). filterIP blocked (ClientIP c) = Inr True) \<and>
    Allow (IP labels) \<noteq> [] \<longrightarrow>
      (CheckIP filterIP c labels \<longleftrightarrow>
         (\<exists>allowed \<in> set (Allow (IP labels)). filterIP allowed (ClientIP c) = Inr True))) \<and>
   (\<not> (\<exists>blocked \<in> set (Block (IP labels)). filterIP blocked (ClientIP c) = Inr True) \<and>
    Allow (IP labels) = [] \<longrightarrow> CheckIP filterIP c labels)"
proof -
  have skipped: "CheckIP_block filterIP (ClientIP c) (before @ entry # after) =
        CheckIP_block filterIP (ClientIP c) (before @ after) \<and>
      CheckIP_allow filterIP (ClientIP c) (before @ entry # after) =
        CheckIP_allow filterIP (ClientIP c) (before @ after)"
    if "filterIP entry (ClientIP c) = Inl err" for before entry err after
    using that by (auto simp: CheckIP_block_iff CheckIP_allow_iff)
  show ?thesis
    using CheckIP_iff [of filterIP c labels] skipped by blast
qed

text \<open>
  The theorem at the address 10.0.0.1: blocked although allowed; allowed past entries that
  do not parse; denied by an allow list with no match; allowed by default.
\<close>

theorem CheckIP_block_then_allow_witness:
  "example_filterIP ''10.0.0.1'' (ClientIP (request_with None)) = Inr True \<and>
   example_filterIP ''not-an-ip'' (ClientIP (request_with None)) =
     Inl (Error ''invalid IP address in filter'') \<and>
   \<not> CheckIP example_filterIP (request_with None)
       (no_labels\<lparr>IP := \<lparr>Allow = [''10.0.0.1''], Block = [''not-an-ip'', ''10.0.0.1'']\<rparr>\<rparr>) \<and>
   CheckIP example_filterIP (request_with None)
     (no_labels\<lparr>IP := \<lparr>Allow = [''not-an-ip'', ''10.0.0.1''], Block = [''not-an-ip'', ''10.0.0.2'']\<rparr>\<rparr>) \<and>
   \<not> CheckIP example_filterIP (request_with None)
       (no_labels\<lparr>IP := \<lparr>Allow = [''not-an-ip''], Block = []\<rparr>\<rparr>) \<and>
   CheckIP example_filterIP (request_with None)
     (no_labels\<lparr>IP := \<lparr>Allow = [], Block = [''10.0.0.2'']\<rparr>\<rparr>)"
  using CheckIP_block_then_allow [of example_filterIP "request_with None"
      "no_labels\<lparr>IP := \<lparr>Allow = [''10.0.0.1''], Block = [''not-an-ip'', ''10.0.0.1'']\<rparr>\<rparr>",
      THEN conjunct1]
    CheckIP_block_then_allow [of example_filterIP "request_with None"
      "no_labels\<lparr>IP := \<lparr>Allow = [''not-an-ip'', ''10.0.0.1''], Block = [''not-an-ip'', ''10.0.0.2'']\<rparr>\<rparr>",
      THEN conjunct1]
    CheckIP_block_then_allow [of example_filterIP "request_with None"
      "no_labels\<lparr>IP := \<lparr>Allow = [''not-an-ip''], Block = []\<rparr>\<rparr>", THEN conjunct1]
    CheckIP_block_then_allow [of example_filterIP "request_with None"
      "no_labels\<lparr>IP := \<lparr>Allow = [], Block = [''10.0.0.2'']\<rparr>\<rparr>", THEN conjunct1]
  by (simp add: example_filterIP_def request_with_def no_labels_def)

text \<open>
  Claim C6. With an empty pattern \<^verbatim>\<open>AuthEnabled\<close> requires authentication and gives no
  error. With a non-empty pattern that does not compile it requires authentication and
  returns the compile error beside the decision. With a non-empty pattern that compiles
  and matches the request's URI it does not require authentication; when the pattern
  does not match, it does.
\<close>

theorem AuthEnabled_bypass:
  "(Allowed labels = [] \<longrightarrow> AuthEnabled compile matches c labels = (True, None)) \<and>
   (\<forall>err. Allowed labels \<noteq> [] \<and> compile (Allowed labels) = Inl err \<longrightarrow>
      AuthEnabled compile matches c labels = (True, Some err)) \<and>
   (\<forall>regex. Allowed labels \<noteq> [] \<and> compile (Allowed labels) = Inr regex \<and>
      matches regex (ForwardedUri c) \<longrightarrow>
      AuthEnabled compile matches c labels = (False, None)) \<and>
   (\<forall>regex. Allowed labels \<noteq> [] \<and> compile (Allowed labels) = Inr regex \<and>
      \<not> matches regex (ForwardedUri c) \<longrightarrow>
      AuthEnabled compile matches c labels = (True, None))"
  by (simp add: AuthEnabled_def Let_def)

text \<open>The theorem at no pattern, a broken pattern, a matching and a non-matching pattern.\<close>

theorem AuthEnabled_bypass_witness:
  "AuthEnabled example_compile example_matches
     (request_with None\<lparr>ForwardedUri := ''/public/logo.png''\<rparr>) no_labels = (True, None) \<and>
   example_compile ''('' = Inl (Error ''error parsing regexp: missing closing )'') \<and>
   AuthEnabled example_compile example_matches
     (request_with None\<lparr>ForwardedUri := ''/public/logo.png''\<rparr>) (no_labels\<lparr>Allowed := ''(''\<rparr>) =
     (True, Some (Error ''error parsing regexp: missing closing )'')) \<and>
   example_compile ''/public'' = Inr ''/public'' \<and>
   example_matches ''/public'' ''/public/logo.png'' \<and>
   AuthEnabled example_compile example_matches
     (request_with None\<lparr>ForwardedUri := ''/public/logo.png''\<rparr>) (no_labels\<lparr>Allowed := ''/public''\<rparr>) =
     (False, None) \<and>
   \<not> example_matches ''/public'' ''/private'' \<and>
   AuthEnabled example_compile example_matches
     (request_with None\<lparr>ForwardedUri := ''/private''\<rparr>) (no_labels\<lparr>Allowed := ''/public''\<rparr>) =
     (True, None)"
proof -
  let ?c = "request_with None\<lparr>ForwardedUri := ''/public/logo.png''\<rparr>"
  have bad: "example_compile ''('' = Inl (Error ''error parsing regexp: missing closing )'')"
    and good: "example_compile ''/public'' = Inr ''/public''"
    by (simp_all add: example_compile_def)
  have hit: "example_matches ''/public'' ''/public/logo.png''"
    and miss: "\<not> example_matches ''/public'' ''/private''"
    by (simp_all add: example_matches_def)
  have a: "AuthEnabled example_compile example_matches ?c no_labels = (True, None)"
    using AuthEnabled_bypass [of no_labels example_compile example_matches ?c, THEN conjunct1]
    by (simp add: no_labels_def)
  have b: "AuthEnabled example_compile example_matches ?c (no_labels\<lparr>Allowed := ''(''\<rparr>) =
      (True, Some (Error ''error parsing regexp: missing closing )''))"
    using AuthEnabled_bypass [of "no_labels\<lparr>Allowed := ''(''\<rparr>" example_compile example_matches ?c,
        THEN conjunct2, THEN conjunct1, rule_format,
        of "Error ''error parsing regexp: missing closing )''"] bad
    by simp
  have c: "AuthEnabled example_compile example_matches ?c (no_labels\<lparr>Allowed := ''/public''\<rparr>) =
      (False, None)"
    using AuthEnabled_bypass [of "no_labels\<lparr>Allowed := ''/public''\<rparr>" example_compile
        example_matches ?c, THEN conjunct2, THEN conjunct2, THEN conjunct1, rule_format,
        of "''/public''"] good hit
    by (simp add: request_with_def)
  have d: "AuthEnabled example_compile example_matches
      (request_with None\<lparr>ForwardedUri := ''/private''\<rparr>) (no_labels\<lparr>Allowed := ''/public''\<rparr>) =
      (True, None)"
    using AuthEnabled_bypass [of "no_labels\<lparr>Allowed := ''/public''\<rparr>" example_compile
        example_matches "request_with None\<lparr>ForwardedUri := ''/private''\<rparr>",
        THEN conjunct2, THEN conjunct2, THEN conjunct2, rule_format, of "''/public''"] good miss
    by (simp add: request_with_def)
  show ?thesis
    using a b c d bad good hit miss by simp
qed

text \<open>
  Claim C8. \<^verbatim>\<open>OAuthGroup\<close> returns true when no groups are required, and when the provider
  is not \<open>generic\<close>, whatever the groups are. Otherwise it returns true exactly when
  at least one of the pieces of the identity's groups, split at commas, passes the
  whitelist check against the required groups.
\<close>

theorem OAuthGroup_any_group:
  "(Groups (OAuth labels) = [] \<longrightarrow> OAuthGroup check context labels) \<and>
   (UserContext.Provider context \<noteq> ''generic'' \<longrightarrow> OAuthGroup check context labels) \<and>
   (Groups (OAuth labels) \<noteq> [] \<and> UserContext.Provider context = ''generic'' \<longrightarrow>
      (OAuthGroup check context labels \<longleftrightarrow>
         (\<exists>grp \<in> set (Split (UserContext.OAuthGroups context) CHR '','').
            check (Groups (OAuth labels)) grp)))"
  by (simp add: OAuthGroup_def OAuthGroup_loop_iff)

text \<open>
  The theorem with the whitelist check of the spec: no groups required; another provider;
  one of two groups listed; none listed.
\<close>

theorem OAuthGroup_any_group_witness:
  "OAuthGroup CheckWhitelist
     \<lparr>UserContext.Username = ''bob'', Email = ''bob@example.com'', Provider = ''generic'',
      OAuthGroups = ''dev,ops''\<rparr> no_labels \<and>
   OAuthGroup CheckWhitelist
     \<lparr>UserContext.Username = ''bob'', Email = ''bob@example.com'', Provider = ''github'',
      OAuthGroups = ''dev''\<rparr>
     (no_labels\<lparr>OAuth := \<lparr>Whitelist = [], Groups = ''admins,ops''\<rparr>\<rparr>) \<and>
   Split ''dev,ops'' CHR '','' = [''dev'', ''ops''] \<and>
   \<not> CheckWhitelist ''admins,ops'' ''dev'' \<and>
   CheckWhitelist ''admins,ops'' ''ops'' \<and>
   OAuthGroup CheckWhitelist
     \<lparr>UserContext.Username = ''bob'', Email = ''bob@example.com'', Provider = ''generic'',
      OAuthGroups = ''dev,ops''\<rparr>
     (no_labels\<lparr>OAuth := \<lparr>Whitelist = [], Groups = ''admins,ops''\<rparr>\<rparr>) \<and>
   \<not> OAuthGroup CheckWhitelist
     \<lparr>UserContext.Username = ''bob'', Email = ''bob@example.com'', Provider = ''generic'',
      OAuthGroups = ''dev,qa''\<rparr>
     (no_labels\<lparr>OAuth := \<lparr>Whitelist = [], Groups = ''admins,ops''\<rparr>\<rparr>)"
proof -
  let ?labels = "no_labels\<lparr>OAuth := \<lparr>Whitelist = [], Groups = ''admins,ops''\<rparr>\<rparr>"
  let ?bob = "\<lambda>provider groups. \<lparr>UserContext.Username = ''bob'', Email = ''bob@example.com'',
      Provider = provider, OAuthGroups = groups\<rparr>"
  have a: "OAuthGroup CheckWhitelist (?bob ''generic'' ''dev,ops'') no_labels"
    using OAuthGroup_any_group [of no_labels CheckWhitelist "?bob ''generic'' ''dev,ops''",
        THEN conjunct1]
    by (simp add: no_labels_def)
  have b: "OAuthGroup CheckWhitelist (?bob ''github'' ''dev'') ?labels"
    using OAuthGroup_any_group [of ?labels CheckWhitelist "?bob ''github'' ''dev''",
        THEN conjunct2, THEN conjunct1]
    by simp
  have split: "Split ''dev,ops'' CHR '','' = [''dev'', ''ops'']"
    "Split ''dev,qa'' CHR '','' = [''dev'', ''qa'']"
    "Split ''admins,ops'' CHR '','' = [''admins'', ''ops'']"
    by simp_all
  have listed: "\<not> CheckWhitelist ''admins,ops'' ''dev''" "CheckWhitelist ''admins,ops'' ''ops''"
    "\<not> CheckWhitelist ''admins,ops'' ''qa''"
    by (simp_all add: CheckWhitelist_def split(3))
  have c: "OAuthGroup CheckWhitelist (?bob ''generic'' ''dev,ops'') ?labels"
    using OAuthGroup_any_group [of ?labels CheckWhitelist "?bob ''generic'' ''dev,ops''",
        THEN conjunct2, THEN conjunct2] split(1) listed
    by (simp add: no_labels_def)
  have d: "\<not> OAuthGroup CheckWhitelist (?bob ''generic'' ''dev,qa'') ?labels"
    using OAuthGroup_any_group [of ?labels CheckWhitelist "?bob ''generic'' ''dev,qa''",
        THEN conjunct2, THEN conjunct2] split(2) listed
    by (simp add: no_labels_def)
  show ?thesis
    using a b c d split(1) listed(1,2) by simp
qed

end
